theory Spec2Isabelle
  imports Main "HOL-Library.Word" "HOL-Library.AList"
begin

section \<open>The lease expiration manager\<close>

text \<open>
  A shallow embedding of the expiration manager of package \<open>vault\<close>
  (\<open>ExpirationManager\<close> and \<open>leaseEntry\<close>). Every method becomes a function that takes
  the manager's state and returns its result together with the new state. The
  collaborators the manager only consumes (the barrier view's failures, the router, the
  token store, the clock, the uuid source, the secret's validation and the JSON codec) are
  fields of an environment record; a collaborator answers from the history of calls made
  so far, so it may answer differently each time it is asked.
\<close>

subsection \<open>Durations and timestamps\<close>

text \<open>
  \<open>time.Duration\<close> is an \<open>int64\<close> count of nanoseconds: a 64-bit word read through
  \<open>sint\<close>, whose \<open>+\<close> and \<open>*\<close> wrap. A \<open>time.Time\<close> in UTC without monotonic reading is
  represented by its count of nanoseconds since the zero time (January 1, year 1).
\<close>

type_synonym Duration = "64 word"
type_synonym Time = int
type_synonym bytes = string

definition Second :: Duration where
  "Second = 1000000000"

definition minDuration :: Duration where
  "minDuration = word_of_int (- (2 ^ 63))"

definition maxDuration :: Duration where
  "maxDuration = word_of_int (2 ^ 63 - 1)"

definition zeroTime :: Time where
  "zeroTime = 0"

definition IsZero :: "Time \<Rightarrow> bool" where
  "IsZero t = (t = zeroTime)"

definition Before :: "Time \<Rightarrow> Time \<Rightarrow> bool" where
  "Before t u = (t < u)"

definition time_Add :: "Time \<Rightarrow> Duration \<Rightarrow> Time" where
  "time_Add t d = t + sint d"

text \<open>\<open>Time.Sub\<close> saturates at the least and the greatest duration.\<close>

definition time_Sub :: "Time \<Rightarrow> Time \<Rightarrow> Duration" where
  "time_Sub t u =
     (if t - u < - (2 ^ 63) then minDuration
      else if 2 ^ 63 - 1 < t - u then maxDuration
      else word_of_int (t - u))"

subsection \<open>Constants\<close>

definition expirationSubPath :: string where
  "expirationSubPath = ''expire/''"

definition maxRevokeAttempts :: nat where
  "maxRevokeAttempts = 6"

definition revokeRetryBase :: Duration where
  "revokeRetryBase = 10 * Second"

definition minRevokeDelay :: Duration where
  "minRevokeDelay = 5 * Second"

subsection \<open>Data\<close>

text \<open>
  Modelled from the spec: \<open>logical.Secret\<close>, the backend's secret descriptor (lease
  duration, grace period, renewability, the identifier slot the manager fills, and the
  increment a renew request carries). Its declaration is not among the sources.
\<close>

record Secret =
  VaultID :: string
  Renewable :: bool
  Lease :: Duration
  LeaseGracePeriod :: Duration
  LeaseIncrement :: Duration

datatype Operation = RenewOperation | RevokeOperation | OtherOperation

text \<open>
  Modelled from the spec: \<open>logical.Request\<close> and \<open>logical.Response\<close>, reduced to the fields
  the manager reads and writes. The opaque data mapping is the type parameter \<open>'d\<close>: the
  manager stores it and hands it back, and never looks inside.
\<close>

record 'd Request =
  Operation :: Operation
  Path :: string
  Data :: 'd
  Secret :: "Secret option"

record 'd Response =
  Secret :: "Secret option"
  Data :: 'd

record 'd leaseEntry =
  VaultID :: string
  LoginToken :: string
  Path :: string
  Data :: 'd
  Secret :: "Secret option"
  IssueTime :: Time
  ExpireTime :: Time

text \<open>
  Modelled from the spec: \<open>logical.RevokeRequest\<close> and \<open>logical.RenewRequest\<close>, the
  requests bound to a path, a secret and the data.
\<close>

definition RevokeRequest :: "string \<Rightarrow> Secret option \<Rightarrow> 'd \<Rightarrow> 'd Request" where
  "RevokeRequest path secret data =
     \<lparr>Request.Operation = RevokeOperation, Request.Path = path,
      Request.Data = data, Request.Secret = secret\<rparr>"

definition RenewRequest :: "string \<Rightarrow> Secret option \<Rightarrow> 'd \<Rightarrow> 'd Request" where
  "RenewRequest path secret data =
     \<lparr>Request.Operation = RenewOperation, Request.Path = path,
      Request.Data = data, Request.Secret = secret\<rparr>"

subsection \<open>Errors, log lines and events\<close>

text \<open>
  One constructor for each \<open>fmt.Errorf\<close> of the source, carrying its arguments;
  \<open>External\<close> is an error value handed over by a collaborator, and
  \<open>nil_pointer_dereference\<close> is the run-time panic of \<open>*le.Secret\<close> and \<open>req.Path\<close> on
  a nil pointer.
\<close>

datatype error =
    External string
  | lease_not_found
  | lease_expired
  | failed_to_scan_for_leases error
  | failed_to_revoke string nat nat error
  | failed_to_revoke_token error
  | failed_to_revoke_entry error
  | failed_to_renew_entry error
  | failed_to_read_lease_entry error
  | failed_to_decode_lease_entry error
  | failed_to_encode_lease_entry error
  | failed_to_persist_lease_entry error
  | failed_to_delete_lease_entry error
  | nil_pointer_dereference

datatype logline =
    INFO_restored_leases nat
  | INFO_revoked string
  | ERR_failed_to_revoke string error
  | ERR_maximum_revoke_attempts string

text \<open>
  Every call that leaves the manager is recorded, in order: the operations on the view,
  the router and the token store, the reads of the clock (with the time read) and of the
  uuid source, the timer operations, the sleeps and the log lines.
\<close>

datatype 'd event =
    ViewGet string
  | ViewPut string bytes
  | ViewDelete string
  | ViewCollectKeys string
  | RouterRoute "'d Request"
  | TokenRevokeTree string
  | TimeNow Time
  | GenerateUUID string
  | TimerAfterFunc string Duration
  | TimerStop string
  | TimerReset string Duration
  | TimeSleep Duration
  | LoggerPrintf logline

subsection \<open>The collaborators\<close>

text \<open>
  Each collaborator is given the events so far and the arguments of the call. The view
  operations answer with a failure or with none; the contents of the view are part of the
  manager's state below. \<open>Marshal\<close> and \<open>Unmarshal\<close> stand for \<open>json.Marshal\<close> and
  \<open>json.Unmarshal\<close> at type \<open>leaseEntry\<close>.
\<close>

record 'd Env =
  Get_err :: "'d event list \<Rightarrow> string \<Rightarrow> error option"
  Put_err :: "'d event list \<Rightarrow> string \<Rightarrow> bytes \<Rightarrow> error option"
  Delete_err :: "'d event list \<Rightarrow> string \<Rightarrow> error option"
  CollectKeys_err :: "'d event list \<Rightarrow> string \<Rightarrow> error option"
  Route :: "'d event list \<Rightarrow> 'd Request \<Rightarrow> error + 'd Response option"
  RevokeTree :: "'d event list \<Rightarrow> string \<Rightarrow> error option"
  Now :: "'d event list \<Rightarrow> Time"
  UUID :: "'d event list \<Rightarrow> string"
  Validate :: "Secret \<Rightarrow> error option"
  Marshal :: "'d leaseEntry \<Rightarrow> error + bytes"
  Unmarshal :: "bytes \<Rightarrow> error + 'd leaseEntry"

subsection \<open>The manager's state\<close>

text \<open>
  \<open>view\<close> is the content of the barrier sub-view (key and value, each key once in map
  semantics), \<open>pending\<close> the table of timers (each timer represented by the duration it
  was last armed with), \<open>trace\<close> the events so far.
\<close>

record 'd ExpirationManager =
  view :: "(string \<times> bytes) list"
  pending :: "(string \<times> Duration) list"
  trace :: "'d event list"

definition emit :: "'d event \<Rightarrow> 'd ExpirationManager \<Rightarrow> 'd ExpirationManager" where
  "emit e m = m\<lparr>trace := trace m @ [e]\<rparr>"

definition NewExpirationManager :: "(string \<times> bytes) list \<Rightarrow> 'd ExpirationManager" where
  "NewExpirationManager v = \<lparr>view = v, pending = [], trace = []\<rparr>"


definition HasPrefix :: "string \<Rightarrow> string \<Rightarrow> bool" where
  "HasPrefix s prefix = (take (length prefix) s = prefix)"

text \<open>
  Modelled from the spec: the storage view (\<open>get\<close>, \<open>put\<close>, \<open>delete\<close>, and
  \<open>collect_keys\<close> over \<open>sub_view(prefix)\<close>: all keys under the prefix, relative to it).
  A failing operation leaves the contents as they are.
\<close>

definition view_Get ::
  "'d Env \<Rightarrow> string \<Rightarrow> 'd ExpirationManager \<Rightarrow> (error + bytes option) \<times> 'd ExpirationManager" where
  "view_Get E key m =
     (case Get_err E (trace m) key of
        Some err \<Rightarrow> (Inl err, emit (ViewGet key) m)
      | None \<Rightarrow> (Inr (map_of (view m) key), emit (ViewGet key) m))"

definition view_Put ::
  "'d Env \<Rightarrow> string \<Rightarrow> bytes \<Rightarrow> 'd ExpirationManager \<Rightarrow> error option \<times> 'd ExpirationManager" where
  "view_Put E key val m =
     (case Put_err E (trace m) key val of
        Some err \<Rightarrow> (Some err, emit (ViewPut key val) m)
      | None \<Rightarrow> (None, emit (ViewPut key val) (m\<lparr>view := AList.update key val (view m)\<rparr>)))"

definition view_Delete ::
  "'d Env \<Rightarrow> string \<Rightarrow> 'd ExpirationManager \<Rightarrow> error option \<times> 'd ExpirationManager" where
  "view_Delete E key m =
     (case Delete_err E (trace m) key of
        Some err \<Rightarrow> (Some err, emit (ViewDelete key) m)
      | None \<Rightarrow> (None, emit (ViewDelete key) (m\<lparr>view := AList.delete key (view m)\<rparr>)))"

definition keys_under :: "string \<Rightarrow> (string \<times> bytes) list \<Rightarrow> string list" where
  "keys_under prefix v =
     map (drop (length prefix)) (filter (\<lambda>k. HasPrefix k prefix) (remdups (map fst v)))"

definition CollectKeys ::
  "'d Env \<Rightarrow> string \<Rightarrow> 'd ExpirationManager \<Rightarrow> (error + string list) \<times> 'd ExpirationManager" where
  "CollectKeys E prefix m =
     (case CollectKeys_err E (trace m) prefix of
        Some err \<Rightarrow> (Inl err, emit (ViewCollectKeys prefix) m)
      | None \<Rightarrow> (Inr (keys_under prefix (view m)), emit (ViewCollectKeys prefix) m))"

definition router_Route ::
  "'d Env \<Rightarrow> 'd Request \<Rightarrow> 'd ExpirationManager
     \<Rightarrow> (error + 'd Response option) \<times> 'd ExpirationManager" where
  "router_Route E req m = (Route E (trace m) req, emit (RouterRoute req) m)"

definition tokenStore_RevokeTree ::
  "'d Env \<Rightarrow> string \<Rightarrow> 'd ExpirationManager \<Rightarrow> error option \<times> 'd ExpirationManager" where
  "tokenStore_RevokeTree E token m = (RevokeTree E (trace m) token, emit (TokenRevokeTree token) m)"

definition time_Now_UTC :: "'d Env \<Rightarrow> 'd ExpirationManager \<Rightarrow> Time \<times> 'd ExpirationManager" where
  "time_Now_UTC E m = (Now E (trace m), emit (TimeNow (Now E (trace m))) m)"

definition generateUUID :: "'d Env \<Rightarrow> 'd ExpirationManager \<Rightarrow> string \<times> 'd ExpirationManager" where
  "generateUUID E m = (UUID E (trace m), emit (GenerateUUID (UUID E (trace m))) m)"

definition time_AfterFunc ::
  "string \<Rightarrow> Duration \<Rightarrow> 'd ExpirationManager \<Rightarrow> 'd ExpirationManager" where
  "time_AfterFunc vaultID d m =
     emit (TimerAfterFunc vaultID d) (m\<lparr>pending := AList.update vaultID d (pending m)\<rparr>)"

definition timer_Reset ::
  "string \<Rightarrow> Duration \<Rightarrow> 'd ExpirationManager \<Rightarrow> 'd ExpirationManager" where
  "timer_Reset vaultID d m =
     emit (TimerReset vaultID d) (m\<lparr>pending := AList.update vaultID d (pending m)\<rparr>)"

definition time_Sleep :: "Duration \<Rightarrow> 'd ExpirationManager \<Rightarrow> 'd ExpirationManager" where
  "time_Sleep d m = emit (TimeSleep d) m"

definition logger_Printf :: "logline \<Rightarrow> 'd ExpirationManager \<Rightarrow> 'd ExpirationManager" where
  "logger_Printf l m = emit (LoggerPrintf l) m"

subsection \<open>The lease entry codec and the store adapter\<close>

definition encode :: "'d Env \<Rightarrow> 'd leaseEntry \<Rightarrow> error + bytes" where
  "encode E l = Marshal E l"

definition decodeLeaseEntry :: "'d Env \<Rightarrow> bytes \<Rightarrow> error + 'd leaseEntry" where
  "decodeLeaseEntry E buf = Unmarshal E buf"

definition loadEntry ::
  "'d Env \<Rightarrow> string \<Rightarrow> 'd ExpirationManager
     \<Rightarrow> (error + 'd leaseEntry option) \<times> 'd ExpirationManager" where
  "loadEntry E vaultID m =
     (case view_Get E vaultID m of
        (Inl err, m1) \<Rightarrow> (Inl (failed_to_read_lease_entry err), m1)
      | (Inr None, m1) \<Rightarrow> (Inr None, m1)
      | (Inr (Some out), m1) \<Rightarrow>
          (case decodeLeaseEntry E out of
             Inl err \<Rightarrow> (Inl (failed_to_decode_lease_entry err), m1)
           | Inr le \<Rightarrow> (Inr (Some le), m1)))"

definition persistEntry ::
  "'d Env \<Rightarrow> 'd leaseEntry \<Rightarrow> 'd ExpirationManager \<Rightarrow> error option \<times> 'd ExpirationManager" where
  "persistEntry E le m =
     (case encode E le of
        Inl err \<Rightarrow> (Some (failed_to_encode_lease_entry err), m)
      | Inr buf \<Rightarrow>
          (case view_Put E (leaseEntry.VaultID le) buf m of
             (Some err, m1) \<Rightarrow> (Some (failed_to_persist_lease_entry err), m1)
           | (None, m1) \<Rightarrow> (None, m1)))"

definition deleteEntry ::
  "'d Env \<Rightarrow> string \<Rightarrow> 'd ExpirationManager \<Rightarrow> error option \<times> 'd ExpirationManager" where
  "deleteEntry E vaultID m =
     (case view_Delete E vaultID m of
        (Some err, m1) \<Rightarrow> (Some (failed_to_delete_lease_entry err), m1)
      | (None, m1) \<Rightarrow> (None, m1))"

subsection \<open>Revocation and renewal dispatch\<close>

definition revokeEntry ::
  "'d Env \<Rightarrow> 'd leaseEntry \<Rightarrow> 'd ExpirationManager \<Rightarrow> error option \<times> 'd ExpirationManager" where
  "revokeEntry E le m =
     (if LoginToken le \<noteq> [] then
        (case tokenStore_RevokeTree E (LoginToken le) m of
           (Some err, m1) \<Rightarrow> (Some (failed_to_revoke_token err), m1)
         | (None, m1) \<Rightarrow> (None, m1))
      else
        (case router_Route E
                (RevokeRequest (leaseEntry.Path le) (leaseEntry.Secret le) (leaseEntry.Data le)) m of
           (Inl err, m1) \<Rightarrow> (Some (failed_to_revoke_entry err), m1)
         | (Inr _, m1) \<Rightarrow> (None, m1)))"

definition renewEntry ::
  "'d Env \<Rightarrow> 'd leaseEntry \<Rightarrow> Duration \<Rightarrow> 'd ExpirationManager
     \<Rightarrow> (error + 'd Response option) \<times> 'd ExpirationManager" where
  "renewEntry E le increment m =
     (case leaseEntry.Secret le of
        None \<Rightarrow> (Inl nil_pointer_dereference, m)
      | Some s \<Rightarrow>
          (let secret = s\<lparr>LeaseIncrement := increment, Secret.VaultID := []\<rparr> in
           case router_Route E
                  (RenewRequest (leaseEntry.Path le) (Some secret) (leaseEntry.Data le)) m of
             (Inl err, m1) \<Rightarrow> (Inl (failed_to_renew_entry err), m1)
           | (Inr resp, m1) \<Rightarrow> (Inr resp, m1)))"

subsection \<open>Revoke and RevokePrefix\<close>

definition Revoke ::
  "'d Env \<Rightarrow> string \<Rightarrow> 'd ExpirationManager \<Rightarrow> error option \<times> 'd ExpirationManager" where
  "Revoke E vaultID m =
     (case loadEntry E vaultID m of
        (Inl err, m1) \<Rightarrow> (Some err, m1)
      | (Inr None, m1) \<Rightarrow> (None, m1)
      | (Inr (Some le), m1) \<Rightarrow>
          (case revokeEntry E le m1 of
             (Some err, m2) \<Rightarrow> (Some err, m2)
           | (None, m2) \<Rightarrow>
               (case deleteEntry E vaultID m2 of
                  (Some err, m3) \<Rightarrow> (Some err, m3)
                | (None, m3) \<Rightarrow>
                    (case map_of (pending m3) vaultID of
                       Some timer \<Rightarrow>
                         (None, (emit (TimerStop vaultID) m3)
                                  \<lparr>pending := AList.delete vaultID (pending m3)\<rparr>)
                     | None \<Rightarrow> (None, m3)))))"




subsection \<open>Renew\<close>

definition Renew ::
  "'d Env \<Rightarrow> string \<Rightarrow> Duration \<Rightarrow> 'd ExpirationManager
     \<Rightarrow> (error + 'd Response option) \<times> 'd ExpirationManager" where
  "Renew E vaultID increment m =
     (case loadEntry E vaultID m of
        (Inl err, m1) \<Rightarrow> (Inl err, m1)
      | (Inr None, m1) \<Rightarrow> (Inl lease_not_found, m1)
      | (Inr (Some le), m1) \<Rightarrow>
          (case time_Now_UTC E m1 of (now, m2) \<Rightarrow>
             if Before (ExpireTime le) now then (Inl lease_expired, m2)
             else
               (case renewEntry E le increment m2 of
                  (Inl err, m3) \<Rightarrow> (Inl err, m3)
                | (Inr None, m3) \<Rightarrow> (Inr None, m3)
                | (Inr (Some resp), m3) \<Rightarrow>
                    (case Response.Secret resp of
                       None \<Rightarrow> (Inr (Some resp), m3)
                     | Some s \<Rightarrow>
                         if Lease s = 0 then (Inr (Some resp), m3)
                         else
                           (case Validate E s of
                              Some err \<Rightarrow> (Inl err, m3)
                            | None \<Rightarrow>
                                (let secret = s\<lparr>Secret.VaultID := vaultID\<rparr>;
                                     resp' = resp\<lparr>Response.Secret := Some secret\<rparr>;
                                     leaseTotal = Lease secret + LeaseGracePeriod secret;
                                     (expireTime, m4) =
                                       (if 0 <s Lease secret
                                        then (case time_Now_UTC E m3 of
                                                (t, m4) \<Rightarrow> (time_Add t leaseTotal, m4))
                                        else (zeroTime, m3));
                                     le' = le\<lparr>leaseEntry.Data := Response.Data resp',
                                              leaseEntry.Secret := Response.Secret resp',
                                              ExpireTime := expireTime\<rparr>
                                 in case persistEntry E le' m4 of
                                      (Some err, m5) \<Rightarrow> (Inl err, m5)
                                    | (None, m5) \<Rightarrow>
                                        (case map_of (pending m5) vaultID of
                                           Some timer \<Rightarrow>
                                             (Inr (Some resp'), timer_Reset vaultID leaseTotal m5)
                                         | None \<Rightarrow> (Inr (Some resp'), m5))))))))"

subsection \<open>Register\<close>

text \<open>
  \<open>path.Clean\<close> and \<open>path.Join\<close> of Go's standard library, which \<open>Register\<close> mints
  the lease id with. \<open>Clean_loop\<close> is the loop of \<open>Clean\<close>: \<open>out\<close> is the buffer written
  so far, \<open>dotdot\<close> the index where a \<open>..\<close> element must stop, and the last argument the
  unread rest of the path.
\<close>

function backtrack :: "nat \<Rightarrow> string \<Rightarrow> nat \<Rightarrow> nat" where
  "backtrack dotdot out w =
     (if dotdot < w \<and> out ! w \<noteq> CHR ''/'' then backtrack dotdot out (w - 1) else w)"
  by pat_completeness auto
termination
  by (relation "measure (\<lambda>(dotdot, out, w). w)") auto

declare backtrack.simps [simp del]

function Clean_loop :: "bool \<Rightarrow> nat \<Rightarrow> string \<Rightarrow> string \<Rightarrow> string" where
  "Clean_loop rooted dotdot out [] = out"
| "Clean_loop rooted dotdot out (c # cs) =
     (if c = CHR ''/'' then Clean_loop rooted dotdot out cs
      else if c = CHR ''.'' \<and> (cs = [] \<or> hd cs = CHR ''/'') then
        Clean_loop rooted dotdot out cs
      else if c = CHR ''.'' \<and> hd cs = CHR ''.'' \<and> (tl cs = [] \<or> hd (tl cs) = CHR ''/'') then
        (if dotdot < length out then
           Clean_loop rooted dotdot (take (backtrack dotdot out (length out - 1)) out) (tl cs)
         else if \<not> rooted then
           (let out' = (if 0 < length out then out @ ''/'' else out) @ ''..''
            in Clean_loop rooted (length out') out' (tl cs))
         else Clean_loop rooted dotdot out (tl cs))
      else
        (let out' = (if rooted \<and> length out \<noteq> 1 \<or> \<not> rooted \<and> length out \<noteq> 0
                     then out @ ''/'' else out)
         in Clean_loop rooted dotdot
              (out' @ takeWhile (\<lambda>x. x \<noteq> CHR ''/'') (c # cs))
              (dropWhile (\<lambda>x. x \<noteq> CHR ''/'') (c # cs))))"
  by pat_completeness auto
termination
  by (relation "measure (\<lambda>(rooted, dotdot, out, p). length p)")
     (auto simp: length_dropWhile_le less_Suc_eq_le intro: le_trans [OF diff_le_self])

declare Clean_loop.simps(2) [simp del]

definition Clean :: "string \<Rightarrow> string" where
  "Clean path =
     (if path = [] then ''.''
      else
        (let out = (if hd path = CHR ''/'' then Clean_loop True 1 ''/'' (tl path)
                    else Clean_loop False 0 [] path)
         in if length out = 0 then ''.'' else out))"

definition Join :: "string \<Rightarrow> string \<Rightarrow> string" where
  "Join a b =
     (if a \<noteq> [] then Clean (a @ ''/'' @ b)
      else if b \<noteq> [] then Clean b
      else [])"

definition Register ::
  "'d Env \<Rightarrow> 'd Request option \<Rightarrow> 'd Response option \<Rightarrow> 'd ExpirationManager
     \<Rightarrow> (error + string) \<times> 'd ExpirationManager" where
  "Register E req resp m =
     (case resp of
        None \<Rightarrow> (Inr [], m)
      | Some r \<Rightarrow>
          (case Response.Secret r of
             None \<Rightarrow> (Inr [], m)
           | Some secret \<Rightarrow>
               if Lease secret = 0 then (Inr [], m)
               else
                 (case Validate E secret of
                    Some err \<Rightarrow> (Inl err, m)
                  | None \<Rightarrow>
                      (case time_Now_UTC E m of (now, m1) \<Rightarrow>
                         (let leaseTotal = Lease secret + LeaseGracePeriod secret;
                              expireTime = (if 0 <s Lease secret then time_Add now leaseTotal
                                            else zeroTime)
                          in case req of
                               None \<Rightarrow> (Inl nil_pointer_dereference, m1)
                             | Some rq \<Rightarrow>
                                 (case generateUUID E m1 of (uuid, m2) \<Rightarrow>
                                    (let le = \<lparr>leaseEntry.VaultID = Join (Request.Path rq) uuid,
                                               LoginToken = [],
                                               leaseEntry.Path = Request.Path rq,
                                               leaseEntry.Data = Response.Data r,
                                               leaseEntry.Secret = Response.Secret r,
                                               IssueTime = now,
                                               ExpireTime = expireTime\<rparr>
                                     in case persistEntry E le m2 of
                                          (Some err, m3) \<Rightarrow> (Inl err, m3)
                                        | (None, m3) \<Rightarrow>
                                            if \<not> IsZero expireTime then
                                              (Inr (leaseEntry.VaultID le),
                                               time_AfterFunc (leaseEntry.VaultID le) leaseTotal m3)
                                            else (Inr (leaseEntry.VaultID le), m3))))))))"

subsection \<open>Timer-driven expiry\<close>

function expireID_loop ::
  "'d Env \<Rightarrow> string \<Rightarrow> nat \<Rightarrow> 'd ExpirationManager \<Rightarrow> 'd ExpirationManager" where
  "expireID_loop E vaultID attempt m =
     (if attempt < maxRevokeAttempts then
        (case Revoke E vaultID m of
           (None, m1) \<Rightarrow> logger_Printf (INFO_revoked vaultID) m1
         | (Some err, m1) \<Rightarrow>
             expireID_loop E vaultID (attempt + 1)
               (time_Sleep (push_bit attempt 1 * revokeRetryBase)
                  (logger_Printf (ERR_failed_to_revoke vaultID err) m1)))
      else logger_Printf (ERR_maximum_revoke_attempts vaultID) m)"
  by pat_completeness auto
termination
  by (relation "measure (\<lambda>(E, vaultID, attempt, m). maxRevokeAttempts - attempt)") auto

declare expireID_loop.simps [simp del]

definition expireID :: "'d Env \<Rightarrow> string \<Rightarrow> 'd ExpirationManager \<Rightarrow> 'd ExpirationManager" where
  "expireID E vaultID m =
     expireID_loop E vaultID 0 (m\<lparr>pending := AList.delete vaultID (pending m)\<rparr>)"

subsection \<open>Restore and Stop\<close>

definition map_len :: "(string \<times> 'v) list \<Rightarrow> nat" where
  "map_len t = length (remdups (map fst t))"

fun Restore_loop ::
  "'d Env \<Rightarrow> string list \<Rightarrow> 'd ExpirationManager \<Rightarrow> error option \<times> 'd ExpirationManager" where
  "Restore_loop E [] m = (None, m)"
| "Restore_loop E (vaultID # rest) m =
     (case loadEntry E vaultID m of
        (Inl err, m1) \<Rightarrow> (Some err, m1)
      | (Inr None, m1) \<Rightarrow> Restore_loop E rest m1
      | (Inr (Some le), m1) \<Rightarrow>
          if IsZero (ExpireTime le) then Restore_loop E rest m1
          else
            (case time_Now_UTC E m1 of (now, m2) \<Rightarrow>
               (let expires = time_Sub (ExpireTime le) now;
                    expires = (if expires \<le>s 0 then minRevokeDelay else expires)
                in Restore_loop E rest (time_AfterFunc (leaseEntry.VaultID le) expires m2))))"

declare Restore_loop.simps(2) [simp del]

definition Restore ::
  "'d Env \<Rightarrow> 'd ExpirationManager \<Rightarrow> error option \<times> 'd ExpirationManager" where
  "Restore E m =
     (case CollectKeys E [] m of
        (Inl err, m1) \<Rightarrow> (Some (failed_to_scan_for_leases err), m1)
      | (Inr existing, m1) \<Rightarrow>
          (case Restore_loop E existing m1 of
             (Some err, m2) \<Rightarrow> (Some err, m2)
           | (None, m2) \<Rightarrow>
               if 0 < map_len (pending m2)
               then (None, logger_Printf (INFO_restored_leases (map_len (pending m2))) m2)
               else (None, m2)))"

definition Stop :: "'d ExpirationManager \<Rightarrow> error option \<times> 'd ExpirationManager" where
  "Stop m =
     (None, (m\<lparr>trace := trace m @ map TimerStop (remdups (map fst (pending m)))\<rparr>)
              \<lparr>pending := []\<rparr>)"

subsection \<open>Observations on traces\<close>

text \<open>The event a revocation dispatch of the entry leaves in the trace.\<close>

definition revoke_event :: "'d leaseEntry \<Rightarrow> 'd event" where
  "revoke_event le =
     (if LoginToken le \<noteq> [] then TokenRevokeTree (LoginToken le)
      else RouterRoute
             (RevokeRequest (leaseEntry.Path le) (leaseEntry.Secret le) (leaseEntry.Data le)))"

definition is_RouterRoute :: "'d event \<Rightarrow> bool" where
  "is_RouterRoute e = (case e of RouterRoute req \<Rightarrow> True | _ \<Rightarrow> False)"

text \<open>The timers armed and the clock readings in a stretch of events, in order.\<close>

definition timers_armed :: "'d event list \<Rightarrow> (string \<times> Duration) list" where
  "timers_armed es =
     List.map_filter (\<lambda>e. case e of TimerAfterFunc vaultID d \<Rightarrow> Some (vaultID, d) | _ \<Rightarrow> None) es"

definition clock_readings :: "'d event list \<Rightarrow> Time list" where
  "clock_readings es = List.map_filter (\<lambda>e. case e of TimeNow t \<Rightarrow> Some t | _ \<Rightarrow> None) es"

text \<open>
  The entry the view holds at a key, if it holds one that decodes; and, of a list of keys,
  the entries whose expire time is not zero.
\<close>

definition stored_entry :: "'d Env \<Rightarrow> (string \<times> bytes) list \<Rightarrow> string \<Rightarrow> 'd leaseEntry option" where
  "stored_entry E v key =
     (case map_of v key of
        None \<Rightarrow> None
      | Some buf \<Rightarrow> (case Unmarshal E buf of Inl err \<Rightarrow> None | Inr le \<Rightarrow> Some le))"

definition expiring_entries ::
  "'d Env \<Rightarrow> (string \<times> bytes) list \<Rightarrow> string list \<Rightarrow> 'd leaseEntry list" where
  "expiring_entries E v keys =
     List.map_filter
       (\<lambda>key. case stored_entry E v key of
                 None \<Rightarrow> None
               | Some le \<Rightarrow> if IsZero (ExpireTime le) then None else Some le) keys"

text \<open>
  The delay \<open>Restore\<close> arms a timer with, in the words of the spec:
  \<open>remaining = expire_time - now\<close>, replaced by \<open>min_revoke_delay\<close> when it is zero or
  less. The difference is the one of \<open>Time.Sub\<close>.
\<close>

definition remaining :: "Time \<Rightarrow> Time \<Rightarrow> Duration" where
  "remaining expire_time now =
     (if time_Sub expire_time now \<le>s 0 then minRevokeDelay else time_Sub expire_time now)"

text \<open>
  The sleeps in a stretch of events, in order, and the number of reads of the view at a
  lease id: \<open>Revoke\<close> starts with exactly one such read, so this counts the attempts.
\<close>

definition sleeps :: "'d event list \<Rightarrow> Duration list" where
  "sleeps es = List.map_filter (\<lambda>e. case e of TimeSleep d \<Rightarrow> Some d | _ \<Rightarrow> None) es"

definition revoke_attempts :: "string \<Rightarrow> 'd event list \<Rightarrow> nat" where
  "revoke_attempts vaultID es = length (filter (\<lambda>e. e = ViewGet vaultID) es)"

subsection \<open>Clean paths\<close>

text \<open>
  A path element that \<open>Clean\<close> keeps as it is, the join of elements with single
  slashes, and the slash \<open>Clean\<close> writes before a real path element.
\<close>

definition clean_segment :: "string \<Rightarrow> bool" where
  "clean_segment s = (s \<noteq> [] \<and> CHR ''/'' \<notin> set s \<and> s \<noteq> ''.'' \<and> s \<noteq> ''..'')"

fun join_slash :: "string list \<Rightarrow> string" where
  "join_slash [] = []"
| "join_slash [s] = s"
| "join_slash (s # t # ss) = s @ ''/'' @ join_slash (t # ss)"

definition add_slash :: "bool \<Rightarrow> string \<Rightarrow> string" where
  "add_slash rooted out =
     (if rooted \<and> length out \<noteq> 1 \<or> \<not> rooted \<and> length out \<noteq> 0 then out @ ''/'' else out)"

subsection \<open>A concrete environment\<close>

text \<open>
  A small world to run the manager in: a view that never fails, a router that fails its
  first \<open>failures\<close> calls and then answers (a renew with a fresh two-minute lease), a
  clock that advances with every event, and a codec that knows three documents.
\<close>

definition fx_secret :: "Duration \<Rightarrow> Secret" where
  "fx_secret lease =
     \<lparr>Secret.VaultID = [], Renewable = True, Lease = lease,
      LeaseGracePeriod = Second, LeaseIncrement = 0\<rparr>"

definition fx_entry :: "string \<Rightarrow> string \<Rightarrow> Time \<Rightarrow> string leaseEntry" where
  "fx_entry vaultID token expire =
     \<lparr>leaseEntry.VaultID = vaultID, LoginToken = token, leaseEntry.Path = ''aws/creds/ops'',
      leaseEntry.Data = ''{}'', leaseEntry.Secret = Some (fx_secret (60 * Second)),
      IssueTime = 1000, ExpireTime = expire\<rparr>"

definition fx_env :: "nat \<Rightarrow> string Env" where
  "fx_env failures =
     \<lparr>Get_err = (\<lambda>tr key. None),
      Put_err = (\<lambda>tr key val. None),
      Delete_err = (\<lambda>tr key. None),
      CollectKeys_err = (\<lambda>tr prefix. None),
      Route = (\<lambda>tr req.
         if length (filter is_RouterRoute tr) < failures then Inl (External ''backend down'')
         else if Request.Operation req = RenewOperation
         then Inr (Some \<lparr>Response.Secret = Some (fx_secret (120 * Second)),
                          Response.Data = ''{renewed}''\<rparr>)
         else Inr None),
      RevokeTree = (\<lambda>tr token. None),
      Now = (\<lambda>tr. 5000 + int (length tr)),
      UUID = (\<lambda>tr. ''u1''),
      Validate = (\<lambda>s. if Lease s \<le>s 0 then Some (External ''invalid lease'') else None),
      Marshal = (\<lambda>le. if 0 < ExpireTime le then Inr ''lease'' else Inr ''forever''),
      Unmarshal = (\<lambda>buf.
         if buf = ''lease'' then Inr (fx_entry ''aws/creds/ops/u1'' [] 70000000000)
         else if buf = ''login'' then Inr (fx_entry ''auth/token/u2'' ''t1'' 1000)
         else if buf = ''forever'' then Inr (fx_entry ''aws/creds/ops/u3'' [] 0)
         else Inl (External ''invalid character''))\<rparr>"

definition fx_manager :: "string ExpirationManager" where
  "fx_manager =
     \<lparr>view = [(''aws/creds/ops/u1'', ''lease''), (''auth/token/u2'', ''login''),
              (''aws/creds/ops/u3'', ''forever'')],
      pending = [(''aws/creds/ops/u1'', 60 * Second)],
      trace = []\<rparr>"

definition fx_request :: "string Request" where
  "fx_request =
     \<lparr>Request.Operation = OtherOperation, Request.Path = ''aws/creds/ops'',
      Request.Data = ''{}'', Request.Secret = None\<rparr>"

definition fx_response :: "string Response" where
  "fx_response =
     \<lparr>Response.Secret = Some (fx_secret (60 * Second)), Response.Data = ''{key}''\<rparr>"

section \<open>Properties\<close>

subsection \<open>Basic facts\<close>

lemma fx_env_simps [simp]:
  "Get_err (fx_env n) tr key = None"
  "Put_err (fx_env n) tr key val = None"
  "Delete_err (fx_env n) tr key = None"
  "CollectKeys_err (fx_env n) tr key = None"
  "Route (fx_env n) tr req =
     (if length (filter is_RouterRoute tr) < n then Inl (External ''backend down'')
      else if Request.Operation req = RenewOperation
      then Inr (Some \<lparr>Response.Secret = Some (fx_secret (120 * Second)),
                       Response.Data = ''{renewed}''\<rparr>)
      else Inr None)"
  "RevokeTree (fx_env n) tr token = None"
  "Now (fx_env n) tr = 5000 + int (length tr)"
  "UUID (fx_env n) tr = ''u1''"
  "Validate (fx_env n) s = (if Lease s \<le>s 0 then Some (External ''invalid lease'') else None)"
  "Marshal (fx_env n) le = (if 0 < ExpireTime le then Inr ''lease'' else Inr ''forever'')"
  "Unmarshal (fx_env n) buf =
     (if buf = ''lease'' then Inr (fx_entry ''aws/creds/ops/u1'' [] 70000000000)
      else if buf = ''login'' then Inr (fx_entry ''auth/token/u2'' ''t1'' 1000)
      else if buf = ''forever'' then Inr (fx_entry ''aws/creds/ops/u3'' [] 0)
      else Inl (External ''invalid character''))"
  by (simp_all add: fx_env_def)

lemma fx_entry_simps [simp]:
  "leaseEntry.VaultID (fx_entry v t e) = v"
  "LoginToken (fx_entry v t e) = t"
  "leaseEntry.Path (fx_entry v t e) = ''aws/creds/ops''"
  "leaseEntry.Data (fx_entry v t e) = ''{}''"
  "leaseEntry.Secret (fx_entry v t e) = Some (fx_secret (60 * Second))"
  "IssueTime (fx_entry v t e) = 1000"
  "ExpireTime (fx_entry v t e) = e"
  by (simp_all add: fx_entry_def)

lemma fx_secret_simps [simp]:
  "Secret.VaultID (fx_secret l) = []"
  "Renewable (fx_secret l) = True"
  "Lease (fx_secret l) = l"
  "LeaseGracePeriod (fx_secret l) = Second"
  "LeaseIncrement (fx_secret l) = 0"
  by (simp_all add: fx_secret_def)

lemmas run_defs = view_Get_def view_Put_def view_Delete_def CollectKeys_def router_Route_def
  tokenStore_RevokeTree_def time_Now_UTC_def generateUUID_def time_AfterFunc_def timer_Reset_def
  time_Sleep_def logger_Printf_def encode_def decodeLeaseEntry_def loadEntry_def persistEntry_def
  deleteEntry_def revokeEntry_def renewEntry_def is_RouterRoute_def

lemma emit_simps [simp]:
  "view (emit e m) = view m"
  "pending (emit e m) = pending m"
  "trace (emit e m) = trace m @ [e]"
  by (simp_all add: emit_def)

lemma loadEntry_state: "snd (loadEntry E vaultID m) = emit (ViewGet vaultID) m"
  by (simp add: loadEntry_def view_Get_def split: option.splits sum.splits)

lemma loadEntry_result:
  "fst (loadEntry E vaultID m) =
     (case Get_err E (trace m) vaultID of
        Some err \<Rightarrow> Inl (failed_to_read_lease_entry err)
      | None \<Rightarrow>
          (case map_of (view m) vaultID of
             None \<Rightarrow> Inr None
           | Some out \<Rightarrow>
               (case Unmarshal E out of
                  Inl err \<Rightarrow> Inl (failed_to_decode_lease_entry err)
                | Inr le \<Rightarrow> Inr (Some le))))"
  by (simp add: loadEntry_def view_Get_def decodeLeaseEntry_def split: option.splits sum.splits)

lemma loadEntry_stored:
  assumes "Get_err E (trace m) vaultID = None"
    and "map_of (view m) vaultID = Some buf"
    and "Unmarshal E buf = Inr le"
  shows "loadEntry E vaultID m = (Inr (Some le), emit (ViewGet vaultID) m)"
  using assms by (simp add: prod_eq_iff loadEntry_state loadEntry_result)

lemma loadEntry_absent:
  assumes "Get_err E (trace m) vaultID = None" and "map_of (view m) vaultID = None"
  shows "loadEntry E vaultID m = (Inr None, emit (ViewGet vaultID) m)"
  using assms by (simp add: prod_eq_iff loadEntry_state loadEntry_result)

lemma revokeEntry_state: "snd (revokeEntry E le m) = emit (revoke_event le) m"
  by (simp add: revokeEntry_def revoke_event_def tokenStore_RevokeTree_def router_Route_def
      split: option.splits sum.splits)

lemma deleteEntry_Some:
  "deleteEntry E vaultID m = (Some err, m') \<Longrightarrow> m' = emit (ViewDelete vaultID) m"
  by (auto simp: deleteEntry_def view_Delete_def split: option.splits)

lemma deleteEntry_None:
  "deleteEntry E vaultID m = (None, m') \<Longrightarrow>
     m' = emit (ViewDelete vaultID) (m\<lparr>view := AList.delete vaultID (view m)\<rparr>)"
  by (auto simp: deleteEntry_def view_Delete_def split: option.splits)

lemma Revoke_absent:
  assumes "Get_err E (trace m) vaultID = None" and "map_of (view m) vaultID = None"
  shows "Revoke E vaultID m = (None, emit (ViewGet vaultID) m)"
  by (simp add: Revoke_def loadEntry_absent [OF assms])

lemma Revoke_success_absent:
  assumes "Revoke E vaultID m = (None, m')"
  shows "map_of (view m') vaultID = None"
proof (cases "fst (loadEntry E vaultID m)")
  case (Inl err)
  then have "loadEntry E vaultID m = (Inl err, emit (ViewGet vaultID) m)"
    by (simp add: prod_eq_iff loadEntry_state)
  with assms show ?thesis by (simp add: Revoke_def)
next
  case (Inr ole)
  then have load: "loadEntry E vaultID m = (Inr ole, emit (ViewGet vaultID) m)"
    by (simp add: prod_eq_iff loadEntry_state)
  show ?thesis
  proof (cases ole)
    case None
    with load assms have "m' = emit (ViewGet vaultID) m" by (simp add: Revoke_def)
    moreover have "map_of (view m) vaultID = None"
      using Inr None by (simp add: loadEntry_result split: option.splits sum.splits)
    ultimately show ?thesis by simp
  next
    case (Some le)
    let ?m1 = "emit (ViewGet vaultID) m"
    let ?m2 = "emit (revoke_event le) ?m1"
    have rev: "revokeEntry E le ?m1 = (fst (revokeEntry E le ?m1), ?m2)"
      by (simp add: prod_eq_iff revokeEntry_state)
    obtain r m3 where del: "deleteEntry E vaultID ?m2 = (r, m3)"
      by (cases "deleteEntry E vaultID ?m2")
    from assms load Some rev del have r: "r = None" and rr: "fst (revokeEntry E le ?m1) = None"
      by (auto simp: Revoke_def split: option.splits prod.splits)
    from del r have m3: "m3 = emit (ViewDelete vaultID) (?m2\<lparr>view := AList.delete vaultID (view ?m2)\<rparr>)"
      by (auto dest: deleteEntry_None)
    have "view m' = view m3"
      using assms load Some rev del r rr
      by (auto simp: Revoke_def split: option.splits prod.splits)
    then show ?thesis
      by (simp add: m3 delete_conv')
  qed
qed

lemma fx_Join: "Join ''aws/creds/ops'' ''u1'' = ''aws/creds/ops/u1''"
  by (simp add: Join_def Clean_def Clean_loop.simps(2))

lemma fx_Register:
  "Register (fx_env 0) (Some fx_request) (Some fx_response) (NewExpirationManager []) =
     (Inr ''aws/creds/ops/u1'',
      \<lparr>view = [(''aws/creds/ops/u1'', ''lease'')],
       pending = [(''aws/creds/ops/u1'', 61000000000)],
       trace = [TimeNow 5000, GenerateUUID ''u1'', ViewPut ''aws/creds/ops/u1'' ''lease'',
                TimerAfterFunc ''aws/creds/ops/u1'' 61000000000]\<rparr>)"
  by (simp add: Register_def run_defs fx_Join time_Add_def IsZero_def zeroTime_def
      word_sless_alt word_sle_eq fx_request_def fx_response_def NewExpirationManager_def
      Second_def emit_def)

subsection \<open>Revoke\<close>

text \<open>
  Claim C1. For a lease id with a stored entry, \<open>Revoke\<close> reads the entry and dispatches
  the revocation next; the delete of the entry comes only after it. If the dispatch
  returns an error, \<open>Revoke\<close> returns that error, nothing but the read and the dispatch
  has happened, and the view and the pending-timer table are what they were.
\<close>

theorem Revoke_dispatch_before_delete:
  assumes "Get_err E (trace m) vaultID = None"
    and "map_of (view m) vaultID = Some buf"
    and "Unmarshal E buf = Inr le"
  shows "case fst (revokeEntry E le (emit (ViewGet vaultID) m)) of
           Some err \<Rightarrow>
             fst (Revoke E vaultID m) = Some err \<and>
             trace (snd (Revoke E vaultID m)) = trace m @ [ViewGet vaultID, revoke_event le] \<and>
             view (snd (Revoke E vaultID m)) = view m \<and>
             pending (snd (Revoke E vaultID m)) = pending m
         | None \<Rightarrow>
             (\<exists>rest. trace (snd (Revoke E vaultID m)) =
                trace m @ [ViewGet vaultID, revoke_event le, ViewDelete vaultID] @ rest)"
proof -
  let ?m1 = "emit (ViewGet vaultID) m"
  let ?m2 = "emit (revoke_event le) ?m1"
  note load = loadEntry_stored [OF assms]
  show ?thesis
  proof (cases "fst (revokeEntry E le ?m1)")
    case (Some err)
    then have rev: "revokeEntry E le ?m1 = (Some err, ?m2)"
      by (simp add: prod_eq_iff revokeEntry_state)
    show ?thesis
      using Some by (simp add: Revoke_def load rev)
  next
    case None
    then have rev: "revokeEntry E le ?m1 = (None, ?m2)"
      by (simp add: prod_eq_iff revokeEntry_state)
    obtain r m3 where del: "deleteEntry E vaultID ?m2 = (r, m3)"
      by (cases "deleteEntry E vaultID ?m2")
    have tr3: "trace m3 = trace m @ [ViewGet vaultID, revoke_event le, ViewDelete vaultID]"
      using del by (cases r) (auto dest: deleteEntry_Some deleteEntry_None)
    show ?thesis
      using None tr3 by (simp add: Revoke_def load rev del split: option.splits)
  qed
qed

theorem Revoke_dispatch_before_delete_witness:
  "Get_err (fx_env 2) (trace fx_manager) ''aws/creds/ops/u1'' = None \<and>
   map_of (view fx_manager) ''aws/creds/ops/u1'' = Some ''lease'' \<and>
   Unmarshal (fx_env 2) ''lease'' = Inr (fx_entry ''aws/creds/ops/u1'' [] 70000000000) \<and>
   fst (Revoke (fx_env 2) ''aws/creds/ops/u1'' fx_manager) =
     Some (failed_to_revoke_entry (External ''backend down'')) \<and>
   view (snd (Revoke (fx_env 2) ''aws/creds/ops/u1'' fx_manager)) = view fx_manager \<and>
   pending (snd (Revoke (fx_env 2) ''aws/creds/ops/u1'' fx_manager)) = pending fx_manager"
proof -
  have h1: "Get_err (fx_env 2) (trace fx_manager) ''aws/creds/ops/u1'' = None"
    by simp
  have h2: "map_of (view fx_manager) ''aws/creds/ops/u1'' = Some ''lease''"
    by (simp add: fx_manager_def)
  have h3: "Unmarshal (fx_env 2) ''lease'' = Inr (fx_entry ''aws/creds/ops/u1'' [] 70000000000)"
    by simp
  have d: "fst (revokeEntry (fx_env 2) (fx_entry ''aws/creds/ops/u1'' [] 70000000000)
                  (emit (ViewGet ''aws/creds/ops/u1'') fx_manager)) =
           Some (failed_to_revoke_entry (External ''backend down''))"
    by (simp add: revokeEntry_def router_Route_def fx_manager_def is_RouterRoute_def)
  show ?thesis
    using Revoke_dispatch_before_delete [OF h1 h2 h3] h1 h2 h3 by (simp add: d)
qed

text \<open>
  Claim C2. \<open>Revoke\<close> is idempotent. For a lease id with no stored entry it returns
  success, and nothing but the read of the view has happened: no dispatch, the view and
  the pending-timer table unchanged. Hence, after a \<open>Register\<close> that returned an id and
  a \<open>Revoke\<close> of that id that succeeded, the entry at the id is absent, and a second
  \<open>Revoke\<close> of the id, once its read of the view goes through, succeeds the same way.
\<close>

theorem Revoke_idempotent:
  "(Get_err E (trace m) vaultID = None \<and> map_of (view m) vaultID = None \<longrightarrow>
      Revoke E vaultID m = (None, emit (ViewGet vaultID) m)) \<and>
   (Register E req resp m0 = (Inr vaultID, m1) \<and> Revoke E vaultID m1 = (None, m2) \<longrightarrow>
      map_of (view m2) vaultID = None \<and>
      (Get_err E (trace m2) vaultID = None \<longrightarrow>
         Revoke E vaultID m2 = (None, emit (ViewGet vaultID) m2)))"
  using Revoke_absent Revoke_success_absent by blast

theorem Revoke_idempotent_witness:
  "(let m1 = snd (Register (fx_env 0) (Some fx_request) (Some fx_response)
                    (NewExpirationManager []));
        m2 = snd (Revoke (fx_env 0) ''aws/creds/ops/u1'' m1)
    in Register (fx_env 0) (Some fx_request) (Some fx_response) (NewExpirationManager []) =
         (Inr ''aws/creds/ops/u1'', m1) \<and>
       Revoke (fx_env 0) ''aws/creds/ops/u1'' m1 = (None, m2) \<and>
       Get_err (fx_env 0) (trace m2) ''aws/creds/ops/u1'' = None \<and>
       map_of (view m2) ''aws/creds/ops/u1'' = None \<and>
       Revoke (fx_env 0) ''aws/creds/ops/u1'' m2 = (None, emit (ViewGet ''aws/creds/ops/u1'') m2))"
proof -
  let ?m1 = "snd (Register (fx_env 0) (Some fx_request) (Some fx_response)
                    (NewExpirationManager []))"
  let ?m2 = "snd (Revoke (fx_env 0) ''aws/creds/ops/u1'' ?m1)"
  have r1: "Register (fx_env 0) (Some fx_request) (Some fx_response) (NewExpirationManager []) =
              (Inr ''aws/creds/ops/u1'', ?m1)"
    by (simp add: fx_Register)
  have "fst (Revoke (fx_env 0) ''aws/creds/ops/u1'' ?m1) = None"
    by (simp add: fx_Register Revoke_def run_defs)
  then have r2: "Revoke (fx_env 0) ''aws/creds/ops/u1'' ?m1 = (None, ?m2)"
    by (simp add: prod_eq_iff)
  have g: "Get_err (fx_env 0) (trace ?m2) ''aws/creds/ops/u1'' = None"
    by simp
  show ?thesis
    using Revoke_idempotent [of "fx_env 0" ?m2 "''aws/creds/ops/u1''" "Some fx_request"
        "Some fx_response" "NewExpirationManager []" ?m1 ?m2] r1 r2 g
    by (simp add: Let_def)
qed

subsection \<open>The revocation engine\<close>

text \<open>
  Claim C7. The dispatch of a revocation is chosen by the entry's login token. With a
  non-empty token the one call made is \<open>RevokeTree\<close> on that token, and the router sees
  nothing; otherwise the one call made is the router's, with the revoke request bound to
  the entry's path, secret and data, and the result is the router's error or, whatever the
  response, success.
\<close>

theorem revokeEntry_dispatch:
  "(LoginToken le \<noteq> [] \<longrightarrow>
      revokeEntry E le m =
        (map_option failed_to_revoke_token (RevokeTree E (trace m) (LoginToken le)),
         emit (TokenRevokeTree (LoginToken le)) m)) \<and>
   (LoginToken le = [] \<longrightarrow>
      revokeEntry E le m =
        (case Route E (trace m)
                (RevokeRequest (leaseEntry.Path le) (leaseEntry.Secret le) (leaseEntry.Data le)) of
           Inl err \<Rightarrow> Some (failed_to_revoke_entry err)
         | Inr resp \<Rightarrow> None,
         emit (RouterRoute
                (RevokeRequest (leaseEntry.Path le) (leaseEntry.Secret le) (leaseEntry.Data le))) m))"
  by (simp add: revokeEntry_def tokenStore_RevokeTree_def router_Route_def
      split: option.splits sum.splits)

theorem revokeEntry_dispatch_witness:
  "LoginToken (fx_entry ''auth/token/u2'' ''t1'' 70000000000) \<noteq> [] \<and>
   revokeEntry (fx_env 2) (fx_entry ''auth/token/u2'' ''t1'' 70000000000) fx_manager =
     (None, emit (TokenRevokeTree ''t1'') fx_manager) \<and>
   LoginToken (fx_entry ''aws/creds/ops/u1'' [] 70000000000) = [] \<and>
   revokeEntry (fx_env 2) (fx_entry ''aws/creds/ops/u1'' [] 70000000000) fx_manager =
     (Some (failed_to_revoke_entry (External ''backend down'')),
      emit (RouterRoute (RevokeRequest ''aws/creds/ops'' (Some (fx_secret (60 * Second))) ''{}''))
        fx_manager)"
  using revokeEntry_dispatch [of "fx_entry ''auth/token/u2'' ''t1'' 70000000000" "fx_env 2" fx_manager]
    revokeEntry_dispatch [of "fx_entry ''aws/creds/ops/u1'' [] 70000000000" "fx_env 2" fx_manager]
  by (simp add: fx_manager_def is_RouterRoute_def)

subsection \<open>Renew\<close>

text \<open>
  Claim C6. Let the stored entry decode, be filed under its own id and not be expired,
  and let the router answer the renew request with a response whose secret has a positive
  lease and passes validation. Then \<open>Renew\<close> returns that response with the secret's id
  set to the lease id; the entry it persists is the loaded one with the data and the
  secret of the response and the expire time read from the clock after the dispatch plus
  the new lease and grace period; when the write goes through, the view holds the encoding
  of that entry at the lease id; and the timer is reset to the new total exactly when the
  pending-timer table has one for the id, the table staying as it is otherwise.
\<close>

theorem Renew_overwrites_entry:
  fixes E :: "'d Env" and m :: "'d ExpirationManager" and vaultID :: string
    and le :: "'d leaseEntry" and s0 s :: Secret and increment :: Duration
    and resp :: "'d Response"
  defines "tr1 \<equiv> trace m @ [ViewGet vaultID]"
  defines "tr2 \<equiv> tr1 @ [TimeNow (Now E tr1)]"
  defines "req \<equiv> RenewRequest (leaseEntry.Path le)
                    (Some (s0\<lparr>LeaseIncrement := increment, Secret.VaultID := []\<rparr>))
                    (leaseEntry.Data le)"
  defines "tr3 \<equiv> tr2 @ [RouterRoute req]"
  defines "secret \<equiv> s\<lparr>Secret.VaultID := vaultID\<rparr>"
  defines "leaseTotal \<equiv> Lease s + LeaseGracePeriod s"
  defines "le' \<equiv> le\<lparr>leaseEntry.Data := Response.Data resp,
                      leaseEntry.Secret := Some secret,
                      ExpireTime := time_Add (Now E tr3) leaseTotal\<rparr>"
  defines "tr4 \<equiv> tr3 @ [TimeNow (Now E tr3)]"
  assumes stored: "Get_err E (trace m) vaultID = None" "map_of (view m) vaultID = Some buf"
      "Unmarshal E buf = Inr le" "leaseEntry.VaultID le = vaultID"
    and live: "\<not> Before (ExpireTime le) (Now E tr1)"
    and secret: "leaseEntry.Secret le = Some s0"
    and route: "Route E tr2 req = Inr (Some resp)"
    and resp: "Response.Secret resp = Some s" "0 <s Lease s" "Validate E s = None"
    and persist: "Marshal E le' = Inr buf'" "Put_err E tr4 vaultID buf' = None"
  shows "fst (Renew E vaultID increment m) = Inr (Some (resp\<lparr>Response.Secret := Some secret\<rparr>)) \<and>
         view (snd (Renew E vaultID increment m)) = AList.update vaultID buf' (view m) \<and>
         pending (snd (Renew E vaultID increment m)) =
           (case map_of (pending m) vaultID of
              Some timer \<Rightarrow> AList.update vaultID leaseTotal (pending m)
            | None \<Rightarrow> pending m) \<and>
         trace (snd (Renew E vaultID increment m)) =
           tr4 @ [ViewPut vaultID buf'] @
           (case map_of (pending m) vaultID of
              Some timer \<Rightarrow> [TimerReset vaultID leaseTotal]
            | None \<Rightarrow> [])"
proof -
  note defs = tr1_def tr2_def tr3_def tr4_def req_def secret_def leaseTotal_def le'_def
  have lease: "Lease s \<noteq> 0"
    using resp(2) by auto
  have renew: "renewEntry E le increment (emit (TimeNow (Now E tr1)) (emit (ViewGet vaultID) m)) =
                 (Inr (Some resp),
                  emit (RouterRoute req) (emit (TimeNow (Now E tr1)) (emit (ViewGet vaultID) m)))"
    using secret route
    by (simp add: renewEntry_def router_Route_def tr1_def tr2_def req_def)
  show ?thesis
    using live resp lease persist stored(4) renew
    unfolding defs
    by (simp add: Renew_def loadEntry_stored [OF stored(1-3)] time_Now_UTC_def
        persistEntry_def encode_def view_Put_def timer_Reset_def
        split: option.splits)
qed



theorem Renew_overwrites_entry_witness:
  "(let vaultID = ''aws/creds/ops/u1'';
        le = fx_entry vaultID [] 70000000000;
        resp = \<lparr>Response.Secret = Some (fx_secret (120 * Second)), Response.Data = ''{renewed}''\<rparr>;
        r = Renew (fx_env 0) vaultID (3600 * Second) fx_manager
    in map_of (view fx_manager) vaultID = Some ''lease'' \<and>
       Unmarshal (fx_env 0) ''lease'' = Inr le \<and>
       \<not> Before (ExpireTime le) (Now (fx_env 0) (trace fx_manager @ [ViewGet vaultID])) \<and>
       0 <s Lease (fx_secret (120 * Second)) \<and>
       Validate (fx_env 0) (fx_secret (120 * Second)) = None \<and>
       fst r = Inr (Some (resp\<lparr>Response.Secret :=
                 Some ((fx_secret (120 * Second))\<lparr>Secret.VaultID := vaultID\<rparr>)\<rparr>)) \<and>
       view (snd r) = AList.update vaultID ''lease'' (view fx_manager) \<and>
       pending (snd r) = [(vaultID, 121 * Second)] \<and>
       trace (snd r) =
         [ViewGet vaultID, TimeNow 5001,
          RouterRoute (RenewRequest ''aws/creds/ops''
             (Some ((fx_secret (60 * Second))\<lparr>LeaseIncrement := 3600 * Second\<rparr>)) ''{}''),
          TimeNow 5003, ViewPut vaultID ''lease'', TimerReset vaultID (121 * Second)])"
proof -
  let ?id = "''aws/creds/ops/u1''"
  let ?le = "fx_entry ?id [] 70000000000"
  let ?resp = "\<lparr>Response.Secret = Some (fx_secret (120 * Second)), Response.Data = ''{renewed}''\<rparr>"
  have h1: "Get_err (fx_env 0) (trace fx_manager) ?id = None" by simp
  have h2: "map_of (view fx_manager) ?id = Some ''lease''" by (simp add: fx_manager_def)
  have h3: "Unmarshal (fx_env 0) ''lease'' = Inr ?le" by simp
  have h4: "leaseEntry.VaultID ?le = ?id" by simp
  have h5: "\<not> Before (ExpireTime ?le) (Now (fx_env 0) (trace fx_manager @ [ViewGet ?id]))"
    by (simp add: Before_def fx_manager_def)
  have h6: "leaseEntry.Secret ?le = Some (fx_secret (60 * Second))" by simp
  have h8: "Response.Secret ?resp = Some (fx_secret (120 * Second))" by simp
  have h9: "0 <s Lease (fx_secret (120 * Second))"
    by (simp add: word_sless_alt Second_def)
  have h10: "Validate (fx_env 0) (fx_secret (120 * Second)) = None"
    by (simp add: word_sle_eq Second_def)
  show ?thesis
    using Renew_overwrites_entry [of "fx_env 0" fx_manager ?id "''lease''" ?le "fx_secret (60 * Second)"
        "3600 * Second" ?resp "fx_secret (120 * Second)" "''lease''", OF h1 h2 h3 h4 h5 h6 _ h8 h9 h10]
      h2 h3 h5 h9 h10
    by (simp add: Let_def fx_manager_def is_RouterRoute_def RenewRequest_def time_Add_def
        Second_def fx_secret_def)
qed

text \<open>
  Claim C10. For a stored entry whose expire time is the zero timestamp, \<open>Renew\<close> fails
  with the lease-expired error whatever the increment, as soon as the clock reads a time
  after the zero timestamp; the renewal is never dispatched.
\<close>

theorem Renew_non_expiring_fails:
  assumes "Get_err E (trace m) vaultID = None"
    and "map_of (view m) vaultID = Some buf"
    and "Unmarshal E buf = Inr le"
    and "IsZero (ExpireTime le)"
    and "Before zeroTime (Now E (trace m @ [ViewGet vaultID]))"
  shows "Renew E vaultID increment m =
           (Inl lease_expired,
            emit (TimeNow (Now E (trace m @ [ViewGet vaultID]))) (emit (ViewGet vaultID) m))"
  using assms(4,5)
  by (simp add: Renew_def loadEntry_stored [OF assms(1-3)] time_Now_UTC_def IsZero_def)

theorem Renew_non_expiring_fails_witness:
  "Get_err (fx_env 0) (trace fx_manager) ''aws/creds/ops/u3'' = None \<and>
   map_of (view fx_manager) ''aws/creds/ops/u3'' = Some ''forever'' \<and>
   Unmarshal (fx_env 0) ''forever'' = Inr (fx_entry ''aws/creds/ops/u3'' [] 0) \<and>
   IsZero (ExpireTime (fx_entry ''aws/creds/ops/u3'' [] 0)) \<and>
   Before zeroTime (Now (fx_env 0) (trace fx_manager @ [ViewGet ''aws/creds/ops/u3''])) \<and>
   fst (Renew (fx_env 0) ''aws/creds/ops/u3'' (3600 * Second) fx_manager) = Inl lease_expired"
proof -
  have h1: "Get_err (fx_env 0) (trace fx_manager) ''aws/creds/ops/u3'' = None" by simp
  have h2: "map_of (view fx_manager) ''aws/creds/ops/u3'' = Some ''forever''"
    by (simp add: fx_manager_def)
  have h3: "Unmarshal (fx_env 0) ''forever'' = Inr (fx_entry ''aws/creds/ops/u3'' [] 0)" by simp
  have h4: "IsZero (ExpireTime (fx_entry ''aws/creds/ops/u3'' [] 0))"
    by (simp add: IsZero_def zeroTime_def)
  have h5: "Before zeroTime (Now (fx_env 0) (trace fx_manager @ [ViewGet ''aws/creds/ops/u3'']))"
    by (simp add: Before_def zeroTime_def)
  show ?thesis
    using Renew_non_expiring_fails [OF h1 h2 h3 h4 h5, of "3600 * Second"] h1 h2 h3 h4 h5 by simp
qed

subsection \<open>Restore\<close>

lemma map_filter_append: "List.map_filter f (xs @ ys) = List.map_filter f xs @ List.map_filter f ys"
  by (simp add: List.map_filter_def)

lemma timers_armed_simps [simp]:
  "timers_armed [] = []"
  "timers_armed (xs @ ys) = timers_armed xs @ timers_armed ys"
  "timers_armed (TimerAfterFunc vaultID d # es) = (vaultID, d) # timers_armed es"
  "timers_armed (ViewGet k # es) = timers_armed es"
  "timers_armed (TimeNow t # es) = timers_armed es"
  "timers_armed (ViewCollectKeys p # es) = timers_armed es"
  "timers_armed (LoggerPrintf l # es) = timers_armed es"
  by (simp_all add: timers_armed_def map_filter_append List.map_filter_simps)

lemma clock_readings_simps [simp]:
  "clock_readings [] = []"
  "clock_readings (xs @ ys) = clock_readings xs @ clock_readings ys"
  "clock_readings (TimerAfterFunc vaultID d # es) = clock_readings es"
  "clock_readings (ViewGet k # es) = clock_readings es"
  "clock_readings (TimeNow t # es) = t # clock_readings es"
  "clock_readings (ViewCollectKeys p # es) = clock_readings es"
  "clock_readings (LoggerPrintf l # es) = clock_readings es"
  by (simp_all add: clock_readings_def map_filter_append List.map_filter_simps)

lemma Restore_loop_Cons:
  "Restore_loop E (key # rest) m =
     (case Get_err E (trace m) key of
        Some err \<Rightarrow> (Some (failed_to_read_lease_entry err), emit (ViewGet key) m)
      | None \<Rightarrow>
          (case map_of (view m) key of
             None \<Rightarrow> Restore_loop E rest (emit (ViewGet key) m)
           | Some buf \<Rightarrow>
               (case Unmarshal E buf of
                  Inl err \<Rightarrow> (Some (failed_to_decode_lease_entry err), emit (ViewGet key) m)
                | Inr le \<Rightarrow>
                    if IsZero (ExpireTime le) then Restore_loop E rest (emit (ViewGet key) m)
                    else Restore_loop E rest
                           (time_AfterFunc (leaseEntry.VaultID le)
                              (remaining (ExpireTime le) (Now E (trace m @ [ViewGet key])))
                              (emit (TimeNow (Now E (trace m @ [ViewGet key])))
                                 (emit (ViewGet key) m))))))"
  by (simp add: Restore_loop.simps(2) loadEntry_def view_Get_def decodeLeaseEntry_def
      time_Now_UTC_def remaining_def Let_def split: option.splits sum.splits)

lemma time_AfterFunc_simps [simp]:
  "view (time_AfterFunc k d m) = view m"
  "pending (time_AfterFunc k d m) = AList.update k d (pending m)"
  "trace (time_AfterFunc k d m) = trace m @ [TimerAfterFunc k d]"
  by (simp_all add: time_AfterFunc_def)

lemma Restore_loop_view: "view (snd (Restore_loop E keys m)) = view m"
proof (induction keys arbitrary: m)
  case Nil
  show ?case by simp
next
  case (Cons key rest)
  show ?case
    by (simp add: Restore_loop_Cons Cons.IH split: option.splits sum.splits)
qed

lemma Restore_loop_timers:
  assumes "Restore_loop E keys m = (None, m')"
  shows "\<exists>new. trace m' = trace m @ new \<and>
           length (clock_readings new) = length (expiring_entries E (view m) keys) \<and>
           timers_armed new =
             map2 (\<lambda>le now. (leaseEntry.VaultID le, remaining (ExpireTime le) now))
               (expiring_entries E (view m) keys) (clock_readings new) \<and>
           pending m' = foldl (\<lambda>p (vaultID, d). AList.update vaultID d p) (pending m) (timers_armed new) \<and>
           (\<forall>l. LoggerPrintf l \<notin> set new)"
  using assms
proof (induction keys arbitrary: m)
  case Nil
  then show ?case by (simp add: expiring_entries_def List.map_filter_simps)
next
  case (Cons key rest)
  note run = Cons.prems [unfolded Restore_loop_Cons]
  show ?case
  proof (cases "stored_entry E (view m) key")
    case None
    with run have rest: "Restore_loop E rest (emit (ViewGet key) m) = (None, m')"
      by (auto simp: stored_entry_def split: option.splits sum.splits)
    from Cons.IH [OF rest] obtain new where
      "trace m' = trace (emit (ViewGet key) m) @ new"
      "length (clock_readings new) = length (expiring_entries E (view m) rest)"
      "timers_armed new =
         map2 (\<lambda>le now. (leaseEntry.VaultID le, remaining (ExpireTime le) now))
           (expiring_entries E (view m) rest) (clock_readings new)"
      "pending m' = foldl (\<lambda>p (vaultID, d). AList.update vaultID d p) (pending m) (timers_armed new)"
      "\<forall>l. LoggerPrintf l \<notin> set new"
      by auto
    then show ?thesis
      using None
      by (intro exI [of _ "ViewGet key # new"])
         (simp add: expiring_entries_def List.map_filter_simps)
  next
    case (Some le)
    show ?thesis
    proof (cases "IsZero (ExpireTime le)")
      case True
      with run Some have rest: "Restore_loop E rest (emit (ViewGet key) m) = (None, m')"
        by (auto simp: stored_entry_def split: option.splits sum.splits)
      from Cons.IH [OF rest] obtain new where
        "trace m' = trace (emit (ViewGet key) m) @ new"
        "length (clock_readings new) = length (expiring_entries E (view m) rest)"
        "timers_armed new =
           map2 (\<lambda>le now. (leaseEntry.VaultID le, remaining (ExpireTime le) now))
             (expiring_entries E (view m) rest) (clock_readings new)"
        "pending m' = foldl (\<lambda>p (vaultID, d). AList.update vaultID d p) (pending m) (timers_armed new)"
        "\<forall>l. LoggerPrintf l \<notin> set new"
        by auto
      then show ?thesis
        using Some True
        by (intro exI [of _ "ViewGet key # new"])
           (simp add: expiring_entries_def List.map_filter_simps)
    next
      case False
      let ?t = "Now E (trace m @ [ViewGet key])"
      let ?d = "remaining (ExpireTime le) ?t"
      let ?m2 = "time_AfterFunc (leaseEntry.VaultID le) ?d
                   (emit (TimeNow ?t) (emit (ViewGet key) m))"
      from run Some False have rest: "Restore_loop E rest ?m2 = (None, m')"
        by (auto simp: stored_entry_def split: option.splits sum.splits)
      from Cons.IH [OF rest] obtain new where
        "trace m' = trace ?m2 @ new"
        "length (clock_readings new) = length (expiring_entries E (view m) rest)"
        "timers_armed new =
           map2 (\<lambda>le now. (leaseEntry.VaultID le, remaining (ExpireTime le) now))
             (expiring_entries E (view m) rest) (clock_readings new)"
        "pending m' = foldl (\<lambda>p (vaultID, d). AList.update vaultID d p)
                        (AList.update (leaseEntry.VaultID le) ?d (pending m)) (timers_armed new)"
        "\<forall>l. LoggerPrintf l \<notin> set new"
        by auto
      then show ?thesis
        using Some False
        by (intro exI [of _ "ViewGet key # TimeNow ?t # TimerAfterFunc (leaseEntry.VaultID le) ?d # new"])
           (simp add: expiring_entries_def List.map_filter_simps)
    qed
  qed
qed


text \<open>
  Claim C5. \<open>Restore\<close> leaves the view as it is. When it succeeds, the timers it has
  armed are, in the order of the listing, one for each persisted key whose entry is
  present with a non-zero expire time, under the entry's id, and none for the other keys;
  each delay is \<open>remaining\<close> of the entry's expire time and the clock reading taken for
  that entry; and the pending-timer table is the old one with these timers entered.
\<close>

theorem Restore_rearms_timers:
  "view (snd (Restore E m)) = view m \<and>
   (fst (Restore E m) = None \<longrightarrow>
      (\<exists>new. trace (snd (Restore E m)) = trace m @ new \<and>
         length (clock_readings new) =
           length (expiring_entries E (view m) (keys_under [] (view m))) \<and>
         timers_armed new =
           map2 (\<lambda>le now. (leaseEntry.VaultID le, remaining (ExpireTime le) now))
             (expiring_entries E (view m) (keys_under [] (view m))) (clock_readings new) \<and>
         pending (snd (Restore E m)) =
           foldl (\<lambda>p (vaultID, d). AList.update vaultID d p) (pending m) (timers_armed new)))"
proof (cases "CollectKeys_err E (trace m) []")
  case (Some err)
  then show ?thesis
    by (simp add: Restore_def CollectKeys_def)
next
  case None
  let ?m1 = "emit (ViewCollectKeys []) m"
  let ?keys = "keys_under [] (view m)"
  obtain r m2 where loop: "Restore_loop E ?keys ?m1 = (r, m2)"
    by (cases "Restore_loop E ?keys ?m1")
  have v2: "view m2 = view m"
    using Restore_loop_view [of E ?keys ?m1] loop by simp
  show ?thesis
  proof (cases r)
    case (Some err)
    with None loop v2 show ?thesis
      by (simp add: Restore_def CollectKeys_def)
  next
    case r: None
    from Restore_loop_timers [OF loop [unfolded r]] obtain new where new:
      "trace m2 = trace ?m1 @ new"
      "length (clock_readings new) = length (expiring_entries E (view m) ?keys)"
      "timers_armed new =
         map2 (\<lambda>le now. (leaseEntry.VaultID le, remaining (ExpireTime le) now))
           (expiring_entries E (view m) ?keys) (clock_readings new)"
      "pending m2 = foldl (\<lambda>p (vaultID, d). AList.update vaultID d p) (pending m) (timers_armed new)"
      by auto
    show ?thesis
    proof (cases "0 < map_len (pending m2)")
      case True
      let ?l = "LoggerPrintf (INFO_restored_leases (map_len (pending m2)))"
      have res: "Restore E m = (None, emit ?l m2)"
        using None loop r True by (simp add: Restore_def CollectKeys_def logger_Printf_def)
      show ?thesis
        unfolding res fst_conv snd_conv using v2 new
        by (intro conjI impI exI [of _ "ViewCollectKeys [] # new @ [?l]"]) simp_all
    next
      case False
      have res: "Restore E m = (None, m2)"
        using None loop r False by (simp add: Restore_def CollectKeys_def)
      show ?thesis
        unfolding res fst_conv snd_conv using v2 new
        by (intro conjI impI exI [of _ "ViewCollectKeys [] # new"]) simp_all
    qed
  qed
qed

lemma fx_keys: "keys_under [] (view fx_manager) =
   [''aws/creds/ops/u1'', ''auth/token/u2'', ''aws/creds/ops/u3'']"
  by (simp add: keys_under_def fx_manager_def HasPrefix_def)

lemma fx_Restore:
  "Restore (fx_env 0) fx_manager =
     (None,
      \<lparr>view = view fx_manager,
       pending = [(''aws/creds/ops/u1'', 69999994998), (''auth/token/u2'', 5000000000)],
       trace = [ViewCollectKeys [], ViewGet ''aws/creds/ops/u1'', TimeNow 5002,
                TimerAfterFunc ''aws/creds/ops/u1'' 69999994998,
                ViewGet ''auth/token/u2'', TimeNow 5005,
                TimerAfterFunc ''auth/token/u2'' 5000000000,
                ViewGet ''aws/creds/ops/u3'',
                LoggerPrintf (INFO_restored_leases 2)]\<rparr>)"
  apply (simp add: Restore_def CollectKeys_def fx_keys)
  apply (simp add: Restore_loop_Cons fx_manager_def IsZero_def zeroTime_def)
  apply (simp add: remaining_def time_Sub_def minRevokeDelay_def Second_def word_sle_eq
      time_AfterFunc_def emit_def map_len_def logger_Printf_def)
  done

theorem Restore_rearms_timers_witness:
  "fst (Restore (fx_env 0) fx_manager) = None \<and>
   view (snd (Restore (fx_env 0) fx_manager)) = view fx_manager \<and>
   (\<exists>new. trace (snd (Restore (fx_env 0) fx_manager)) = trace fx_manager @ new \<and>
      timers_armed new =
        [(''aws/creds/ops/u1'', 69999994998), (''auth/token/u2'', 5 * Second)])"
proof -
  have ok: "fst (Restore (fx_env 0) fx_manager) = None"
    by (simp add: fx_Restore)
  have ex: "expiring_entries (fx_env 0) (view fx_manager) (keys_under [] (view fx_manager)) =
      [fx_entry ''aws/creds/ops/u1'' [] 70000000000, fx_entry ''auth/token/u2'' ''t1'' 1000]"
    unfolding fx_keys
    by (simp add: expiring_entries_def stored_entry_def List.map_filter_simps
        fx_manager_def IsZero_def zeroTime_def)
  from Restore_rearms_timers [of "fx_env 0" fx_manager] ok obtain new where new:
    "trace (snd (Restore (fx_env 0) fx_manager)) = trace fx_manager @ new"
    "timers_armed new =
       map2 (\<lambda>le now. (leaseEntry.VaultID le, remaining (ExpireTime le) now))
         (expiring_entries (fx_env 0) (view fx_manager) (keys_under [] (view fx_manager)))
         (clock_readings new)"
    by auto
  from new(1) have "new = trace (snd (Restore (fx_env 0) fx_manager))"
    by (simp add: fx_manager_def)
  then have "clock_readings new = [5002, 5005]"
    by (simp add: fx_Restore)
  with new(2) have "timers_armed new =
      [(''aws/creds/ops/u1'', 69999994998), (''auth/token/u2'', 5 * Second)]"
    by (simp add: ex remaining_def time_Sub_def minRevokeDelay_def Second_def word_sle_eq)
  with new(1) ok Restore_rearms_timers [of "fx_env 0" fx_manager] show ?thesis
    by blast
qed

subsection \<open>RevokePrefix\<close>












subsection \<open>Timer-driven expiry\<close>

lemma sleeps_simps [simp]:
  "sleeps [] = []"
  "sleeps (xs @ ys) = sleeps xs @ sleeps ys"
  "sleeps (TimeSleep d # es) = d # sleeps es"
  "sleeps (ViewGet k # es) = sleeps es"
  "sleeps (ViewDelete k # es) = sleeps es"
  "sleeps (RouterRoute req # es) = sleeps es"
  "sleeps (TokenRevokeTree token # es) = sleeps es"
  "sleeps (TimerStop k # es) = sleeps es"
  "sleeps (LoggerPrintf l # es) = sleeps es"
  by (simp_all add: sleeps_def map_filter_append List.map_filter_simps)

lemma revoke_attempts_simps [simp]:
  "revoke_attempts k [] = 0"
  "revoke_attempts k (xs @ ys) = revoke_attempts k xs + revoke_attempts k ys"
  "revoke_attempts k (ViewGet k # es) = Suc (revoke_attempts k es)"
  "revoke_attempts k (TimeSleep d # es) = revoke_attempts k es"
  "revoke_attempts k (ViewDelete k' # es) = revoke_attempts k es"
  "revoke_attempts k (RouterRoute req # es) = revoke_attempts k es"
  "revoke_attempts k (TokenRevokeTree token # es) = revoke_attempts k es"
  "revoke_attempts k (TimerStop k' # es) = revoke_attempts k es"
  "revoke_attempts k (LoggerPrintf l # es) = revoke_attempts k es"
  by (simp_all add: revoke_attempts_def)

lemma Revoke_trace:
  "\<exists>es. trace (snd (Revoke E vaultID m)) = trace m @ ViewGet vaultID # es \<and>
        sleeps es = [] \<and> revoke_attempts vaultID es = 0 \<and>
        (map_of (pending m) vaultID = None \<longrightarrow> TimerStop vaultID \<notin> set es)"
  by (auto simp: Revoke_def loadEntry_def view_Get_def decodeLeaseEntry_def revokeEntry_def
      tokenStore_RevokeTree_def router_Route_def deleteEntry_def view_Delete_def
      split: option.splits sum.splits prod.splits)

lemma Revoke_failure_state:
  "fst (Revoke E vaultID m) = Some err \<Longrightarrow>
     view (snd (Revoke E vaultID m)) = view m \<and> pending (snd (Revoke E vaultID m)) = pending m"
  by (auto simp: Revoke_def loadEntry_def view_Get_def decodeLeaseEntry_def revokeEntry_def
      tokenStore_RevokeTree_def router_Route_def deleteEntry_def view_Delete_def
      split: option.splits sum.splits prod.splits)

lemma Revoke_not_pending:
  "map_of (pending m) vaultID = None \<Longrightarrow> pending (snd (Revoke E vaultID m)) = pending m"
  by (auto simp: Revoke_def loadEntry_def view_Get_def decodeLeaseEntry_def revokeEntry_def
      tokenStore_RevokeTree_def router_Route_def deleteEntry_def view_Delete_def
      split: option.splits sum.splits prod.splits)


lemma expireID_loop_run:
  assumes "map_of (pending m) vaultID = None" and "attempt \<le> maxRevokeAttempts"
  shows "\<exists>k new. attempt \<le> k \<and> k \<le> maxRevokeAttempts \<and>
           trace (expireID_loop E vaultID attempt m) = trace m @ new \<and>
           pending (expireID_loop E vaultID attempt m) = pending m \<and>
           TimerStop vaultID \<notin> set new \<and>
           sleeps new = map (\<lambda>a. push_bit a 1 * revokeRetryBase) [attempt..<k] \<and>
           (if k < maxRevokeAttempts
            then revoke_attempts vaultID new = k - attempt + 1 \<and>
                 (\<exists>pre. new = pre @ [LoggerPrintf (INFO_revoked vaultID)]) \<and>
                 map_of (view (expireID_loop E vaultID attempt m)) vaultID = None
            else revoke_attempts vaultID new = k - attempt \<and>
                 (\<exists>pre. new = pre @ [LoggerPrintf (ERR_maximum_revoke_attempts vaultID)]) \<and>
                 view (expireID_loop E vaultID attempt m) = view m)"
  using assms
proof (induction "maxRevokeAttempts - attempt" arbitrary: attempt m)
  case 0
  then have a: "attempt = maxRevokeAttempts" by simp
  have "expireID_loop E vaultID attempt m =
          logger_Printf (ERR_maximum_revoke_attempts vaultID) m"
    by (subst expireID_loop.simps) (simp add: a)
  then show ?case
    by (intro exI [of _ attempt] exI [of _ "[LoggerPrintf (ERR_maximum_revoke_attempts vaultID)]"])
       (simp add: a logger_Printf_def)
next
  case (Suc n)
  then have lt: "attempt < maxRevokeAttempts" by simp
  obtain es where es: "trace (snd (Revoke E vaultID m)) = trace m @ ViewGet vaultID # es"
    "sleeps es = []" "revoke_attempts vaultID es = 0" "TimerStop vaultID \<notin> set es"
    using Revoke_trace [of E vaultID m] Suc.prems(1) by auto
  note pend = Revoke_not_pending [OF Suc.prems(1), of E]
  show ?case
  proof (cases "fst (Revoke E vaultID m)")
    case None
    then have rev: "Revoke E vaultID m = (None, snd (Revoke E vaultID m))"
      by (simp add: prod_eq_iff)
    have run: "expireID_loop E vaultID attempt m =
                 logger_Printf (INFO_revoked vaultID) (snd (Revoke E vaultID m))"
      by (subst expireID_loop.simps, subst rev) (simp add: lt)
    have gone: "map_of (view (snd (Revoke E vaultID m))) vaultID = None"
      using rev by (rule Revoke_success_absent)
    show ?thesis
      using lt es pend gone
      by (intro exI [of _ attempt] exI [of _ "ViewGet vaultID # es @ [LoggerPrintf (INFO_revoked vaultID)]"])
         (simp add: run logger_Printf_def)
  next
    case (Some err)
    let ?m1 = "snd (Revoke E vaultID m)"
    let ?d = "push_bit attempt 1 * revokeRetryBase"
    let ?m2 = "time_Sleep ?d (logger_Printf (ERR_failed_to_revoke vaultID err) ?m1)"
    from Some have rev: "Revoke E vaultID m = (Some err, ?m1)"
      by (simp add: prod_eq_iff)
    have run: "expireID_loop E vaultID attempt m = expireID_loop E vaultID (attempt + 1) ?m2"
      by (subst expireID_loop.simps, subst rev) (simp add: lt)
    have keep: "view ?m1 = view m" "pending ?m1 = pending m"
      using Revoke_failure_state [OF Some] by simp_all
    have p2: "map_of (pending ?m2) vaultID = None"
      using Suc.prems(1) keep by (simp add: time_Sleep_def logger_Printf_def)
    have n: "n = maxRevokeAttempts - (attempt + 1)"
      using Suc.hyps(2) by simp
    from Suc.hyps(1) [OF n p2] lt obtain k new where k:
      "attempt + 1 \<le> k" "k \<le> maxRevokeAttempts"
      "trace (expireID_loop E vaultID (attempt + 1) ?m2) = trace ?m2 @ new"
      "pending (expireID_loop E vaultID (attempt + 1) ?m2) = pending ?m2"
      "TimerStop vaultID \<notin> set new"
      "sleeps new = map (\<lambda>a. push_bit a 1 * revokeRetryBase) [attempt + 1..<k]"
      "if k < maxRevokeAttempts
       then revoke_attempts vaultID new = k - (attempt + 1) + 1 \<and>
            (\<exists>pre. new = pre @ [LoggerPrintf (INFO_revoked vaultID)]) \<and>
            map_of (view (expireID_loop E vaultID (attempt + 1) ?m2)) vaultID = None
       else revoke_attempts vaultID new = k - (attempt + 1) \<and>
            (\<exists>pre. new = pre @ [LoggerPrintf (ERR_maximum_revoke_attempts vaultID)]) \<and>
            view (expireID_loop E vaultID (attempt + 1) ?m2) = view ?m2"
      by (auto simp del: One_nat_def)
    let ?new = "ViewGet vaultID # es @
                  [LoggerPrintf (ERR_failed_to_revoke vaultID err), TimeSleep ?d] @ new"
    have upt: "[attempt..<k] = attempt # [attempt + 1..<k]"
      using k(1) by (simp add: upt_conv_Cons)
    have tr: "trace (expireID_loop E vaultID attempt m) = trace m @ ?new"
      using k(3) es(1) by (simp add: run time_Sleep_def logger_Printf_def)
    have pd: "pending (expireID_loop E vaultID attempt m) = pending m"
      using k(4) keep by (simp add: run time_Sleep_def logger_Printf_def)
    have ts: "TimerStop vaultID \<notin> set ?new"
      using es(4) k(5) by simp
    have sl: "sleeps ?new = map (\<lambda>a. push_bit a 1 * revokeRetryBase) [attempt..<k]"
      using es(2) k(6) by (simp add: upt)
    have fin: "if k < maxRevokeAttempts
       then revoke_attempts vaultID ?new = k - attempt + 1 \<and>
            (\<exists>pre. ?new = pre @ [LoggerPrintf (INFO_revoked vaultID)]) \<and>
            map_of (view (expireID_loop E vaultID attempt m)) vaultID = None
       else revoke_attempts vaultID ?new = k - attempt \<and>
            (\<exists>pre. ?new = pre @ [LoggerPrintf (ERR_maximum_revoke_attempts vaultID)]) \<and>
            view (expireID_loop E vaultID attempt m) = view m"
    proof (cases "k < maxRevokeAttempts")
      case True
      with k(7) obtain pre where pre: "new = pre @ [LoggerPrintf (INFO_revoked vaultID)]"
        by auto
      have "?new = (ViewGet vaultID # es @
                  [LoggerPrintf (ERR_failed_to_revoke vaultID err), TimeSleep ?d] @ pre) @
                  [LoggerPrintf (INFO_revoked vaultID)]"
        by (simp add: pre)
      then have "\<exists>pre. ?new = pre @ [LoggerPrintf (INFO_revoked vaultID)]"
        by (rule exI)
      then show ?thesis
        using True k(1,7) es(3) by (simp add: run)
    next
      case False
      with k(7) obtain pre where pre: "new = pre @ [LoggerPrintf (ERR_maximum_revoke_attempts vaultID)]"
        by auto
      have "?new = (ViewGet vaultID # es @
                  [LoggerPrintf (ERR_failed_to_revoke vaultID err), TimeSleep ?d] @ pre) @
                  [LoggerPrintf (ERR_maximum_revoke_attempts vaultID)]"
        by (simp add: pre)
      then have "\<exists>pre. ?new = pre @ [LoggerPrintf (ERR_maximum_revoke_attempts vaultID)]"
        by (rule exI)
      then show ?thesis
        using False k(1,7) es(3) keep by (simp add: run time_Sleep_def logger_Printf_def)
    qed
    show ?thesis
      using k(1,2) tr pd ts sl fin
      by (intro exI [of _ k] exI [of _ ?new]) simp
  qed
qed


text \<open>
  Claim C3, as the code has it. When the timer of a lease id fires, \<open>expireID\<close> takes
  the id out of the pending-timer table first (so no attempt stops a timer) and then
  calls \<open>Revoke\<close> at most six times, stopping at the first success. Every failed
  attempt, the sixth included, is followed by a sleep of \<open>revokeRetryBase * 2^attempt\<close>:
  with \<open>k\<close> failures the sleeps are 10s, 20s, ... for attempts \<open>0\<close> to \<open>k - 1\<close>. With
  fewer than six failures there are \<open>k + 1\<close> attempts, the last line logged is the
  success and the entry is gone; with six failures there are six attempts and six sleeps,
  the last line logged is that the maximum is reached, and the view is what it was.
\<close>

theorem expireID_bounded_retry:
  "\<exists>k new. k \<le> maxRevokeAttempts \<and>
      trace (expireID E vaultID m) = trace m @ new \<and>
      pending (expireID E vaultID m) = AList.delete vaultID (pending m) \<and>
      TimerStop vaultID \<notin> set new \<and>
      sleeps new = map (\<lambda>attempt. push_bit attempt 1 * revokeRetryBase) [0..<k] \<and>
      (if k < maxRevokeAttempts
       then revoke_attempts vaultID new = k + 1 \<and>
            (\<exists>pre. new = pre @ [LoggerPrintf (INFO_revoked vaultID)]) \<and>
            map_of (view (expireID E vaultID m)) vaultID = None
       else revoke_attempts vaultID new = maxRevokeAttempts \<and>
            (\<exists>pre. new = pre @ [LoggerPrintf (ERR_maximum_revoke_attempts vaultID)]) \<and>
            view (expireID E vaultID m) = view m)"
proof -
  let ?m0 = "m\<lparr>pending := AList.delete vaultID (pending m)\<rparr>"
  have p0: "map_of (pending ?m0) vaultID = None"
    by (simp add: delete_conv')
  from expireID_loop_run [OF p0, of 0 E] obtain k new where k:
    "k \<le> maxRevokeAttempts"
    "trace (expireID_loop E vaultID 0 ?m0) = trace ?m0 @ new"
    "pending (expireID_loop E vaultID 0 ?m0) = pending ?m0"
    "TimerStop vaultID \<notin> set new"
    "sleeps new = map (\<lambda>a. push_bit a 1 * revokeRetryBase) [0..<k]"
    "if k < maxRevokeAttempts
     then revoke_attempts vaultID new = k - 0 + 1 \<and>
          (\<exists>pre. new = pre @ [LoggerPrintf (INFO_revoked vaultID)]) \<and>
          map_of (view (expireID_loop E vaultID 0 ?m0)) vaultID = None
     else revoke_attempts vaultID new = k - 0 \<and>
          (\<exists>pre. new = pre @ [LoggerPrintf (ERR_maximum_revoke_attempts vaultID)]) \<and>
          view (expireID_loop E vaultID 0 ?m0) = view ?m0"
    by (auto simp: maxRevokeAttempts_def)
  show ?thesis
  proof (cases "k < maxRevokeAttempts")
    case True
    with k show ?thesis
      by (intro exI [of _ k] exI [of _ new]) (simp add: expireID_def)
  next
    case False
    with k(1) have "k = maxRevokeAttempts" by simp
    with k False show ?thesis
      by (intro exI [of _ k] exI [of _ new]) (simp add: expireID_def)
  qed
qed

lemma fx_expireID_6:
  "trace (expireID (fx_env 6) ''aws/creds/ops/u1'' fx_manager) =
     (let get = ViewGet ''aws/creds/ops/u1'';
          route = RouterRoute (RevokeRequest ''aws/creds/ops'' (Some (fx_secret (60 * Second))) ''{}'');
          fail = LoggerPrintf (ERR_failed_to_revoke ''aws/creds/ops/u1''
                   (failed_to_revoke_entry (External ''backend down'')))
      in [get, route, fail, TimeSleep 10000000000,
          get, route, fail, TimeSleep 20000000000,
          get, route, fail, TimeSleep 40000000000,
          get, route, fail, TimeSleep 80000000000,
          get, route, fail, TimeSleep 160000000000,
          get, route, fail, TimeSleep 320000000000,
          LoggerPrintf (ERR_maximum_revoke_attempts ''aws/creds/ops/u1'')])"
  by (simp add: expireID_def expireID_loop.simps maxRevokeAttempts_def Revoke_def run_defs
      fx_manager_def emit_def revokeRetryBase_def Second_def Let_def)

text \<open>
  Against claim C3 as stated (five sleeps for six attempts): with a router that fails six
  times, \<open>expireID\<close> makes six attempts and sleeps six times, the last time for 320s
  after the sixth failure.
\<close>

theorem expireID_six_sleeps:
  "revoke_attempts ''aws/creds/ops/u1''
     (trace (expireID (fx_env 6) ''aws/creds/ops/u1'' fx_manager)) = 6 \<and>
   sleeps (trace (expireID (fx_env 6) ''aws/creds/ops/u1'' fx_manager)) =
     [10 * Second, 20 * Second, 40 * Second, 80 * Second, 160 * Second, 320 * Second] \<and>
   length (sleeps (trace (expireID (fx_env 6) ''aws/creds/ops/u1'' fx_manager))) \<noteq> 5"
  by (simp add: fx_expireID_6 Let_def Second_def)

lemma fx_expireID_3:
  "expireID (fx_env 3) ''aws/creds/ops/u1'' fx_manager =
     (let get = ViewGet ''aws/creds/ops/u1'';
          route = RouterRoute (RevokeRequest ''aws/creds/ops'' (Some (fx_secret (60 * Second))) ''{}'');
          fail = LoggerPrintf (ERR_failed_to_revoke ''aws/creds/ops/u1''
                   (failed_to_revoke_entry (External ''backend down'')))
      in \<lparr>view = [(''auth/token/u2'', ''login''), (''aws/creds/ops/u3'', ''forever'')],
          pending = [],
          trace = [get, route, fail, TimeSleep 10000000000,
                   get, route, fail, TimeSleep 20000000000,
                   get, route, fail, TimeSleep 40000000000,
                   get, route, ViewDelete ''aws/creds/ops/u1'',
                   LoggerPrintf (INFO_revoked ''aws/creds/ops/u1'')]\<rparr>)"
  by (simp add: expireID_def expireID_loop.simps maxRevokeAttempts_def Revoke_def run_defs
      fx_manager_def emit_def revokeRetryBase_def Second_def Let_def)

theorem expireID_bounded_retry_witness:
  "(\<exists>k new. k < maxRevokeAttempts \<and>
      trace (expireID (fx_env 3) ''aws/creds/ops/u1'' fx_manager) = trace fx_manager @ new \<and>
      sleeps new = [10 * Second, 20 * Second, 40 * Second] \<and>
      sleeps new = map (\<lambda>attempt. push_bit attempt 1 * revokeRetryBase) [0..<k] \<and>
      revoke_attempts ''aws/creds/ops/u1'' new = k + 1) \<and>
   map_of (view (expireID (fx_env 3) ''aws/creds/ops/u1'' fx_manager)) ''aws/creds/ops/u1'' = None"
proof -
  from expireID_bounded_retry [of "fx_env 3" "''aws/creds/ops/u1''" fx_manager] obtain k new where k:
    "k \<le> maxRevokeAttempts"
    "trace (expireID (fx_env 3) ''aws/creds/ops/u1'' fx_manager) = trace fx_manager @ new"
    "sleeps new = map (\<lambda>attempt. push_bit attempt 1 * revokeRetryBase) [0..<k]"
    "if k < maxRevokeAttempts
     then revoke_attempts ''aws/creds/ops/u1'' new = k + 1 \<and>
          (\<exists>pre. new = pre @ [LoggerPrintf (INFO_revoked ''aws/creds/ops/u1'')]) \<and>
          map_of (view (expireID (fx_env 3) ''aws/creds/ops/u1'' fx_manager)) ''aws/creds/ops/u1'' = None
     else revoke_attempts ''aws/creds/ops/u1'' new = maxRevokeAttempts \<and>
          (\<exists>pre. new = pre @ [LoggerPrintf (ERR_maximum_revoke_attempts ''aws/creds/ops/u1'')]) \<and>
          view (expireID (fx_env 3) ''aws/creds/ops/u1'' fx_manager) = view fx_manager"
    by blast
  from k(2) have new: "new = trace (expireID (fx_env 3) ''aws/creds/ops/u1'' fx_manager)"
    by (simp add: fx_manager_def)
  have s3: "sleeps new = [10 * Second, 20 * Second, 40 * Second]"
    by (simp add: new fx_expireID_3 Let_def Second_def)
  with k(3) have "length [0..<k] = 3"
    by (metis length_map length_Cons list.size(3) numeral_3_eq_3)
  then have "k < maxRevokeAttempts"
    by (simp add: maxRevokeAttempts_def)
  with k s3 show ?thesis
    by auto
qed

subsection \<open>Register\<close>

lemma takeWhile_upto:
  "c \<notin> set xs \<Longrightarrow> ys = [] \<or> hd ys = c \<Longrightarrow> takeWhile (\<lambda>x. x \<noteq> c) (xs @ ys) = xs"
  by (induction xs) (auto simp: takeWhile_eq_Nil_iff)

lemma dropWhile_upto:
  "c \<notin> set xs \<Longrightarrow> ys = [] \<or> hd ys = c \<Longrightarrow> dropWhile (\<lambda>x. x \<noteq> c) (xs @ ys) = ys"
  by (induction xs) (auto simp: dropWhile_eq_self_iff)

lemma Clean_loop_slash:
  "Clean_loop rooted dotdot out (CHR ''/'' # rest) = Clean_loop rooted dotdot out rest"
  by (simp add: Clean_loop.simps(2))

lemma Clean_loop_segment:
  assumes "clean_segment s" and "rest = [] \<or> hd rest = CHR ''/''"
  shows "Clean_loop rooted dotdot out (s @ rest) =
         Clean_loop rooted dotdot (add_slash rooted out @ s) rest"
proof -
  from assms(1) obtain c cs where s: "s = c # cs"
    by (cases s) (auto simp: clean_segment_def)
  have c: "c \<noteq> CHR ''/''" and cs: "CHR ''/'' \<notin> set cs"
    using assms(1) by (auto simp: clean_segment_def s)
  have dot: "\<not> (c = CHR ''.'' \<and> (cs @ rest = [] \<or> hd (cs @ rest) = CHR ''/''))"
  proof
    assume a: "c = CHR ''.'' \<and> (cs @ rest = [] \<or> hd (cs @ rest) = CHR ''/'')"
    with assms(1) s have "cs \<noteq> []" by (auto simp: clean_segment_def)
    with a cs show False by (cases cs) auto
  qed
  have dotdot: "\<not> (c = CHR ''.'' \<and> hd (cs @ rest) = CHR ''.'' \<and>
                  (tl (cs @ rest) = [] \<or> hd (tl (cs @ rest)) = CHR ''/''))"
  proof
    assume a: "c = CHR ''.'' \<and> hd (cs @ rest) = CHR ''.'' \<and>
                  (tl (cs @ rest) = [] \<or> hd (tl (cs @ rest)) = CHR ''/'')"
    show False
    proof (cases cs)
      case Nil
      with a assms(1) s show False by (auto simp: clean_segment_def)
    next
      case (Cons d ds)
      with a have d: "d = CHR ''.''" by simp
      with assms(1) s Cons a have "ds \<noteq> []" by (auto simp: clean_segment_def)
      with a cs Cons show False by (cases ds) auto
    qed
  qed
  have tw: "takeWhile (\<lambda>x. x \<noteq> CHR ''/'') ((c # cs) @ rest) = c # cs"
    using c cs assms(2) by (intro takeWhile_upto) auto
  have dw: "dropWhile (\<lambda>x. x \<noteq> CHR ''/'') ((c # cs) @ rest) = rest"
    using c cs assms(2) by (intro dropWhile_upto) auto
  have step: "Clean_loop rooted dotdot out (c # (cs @ rest)) =
      (let out' = (if rooted \<and> length out \<noteq> 1 \<or> \<not> rooted \<and> length out \<noteq> 0
                     then out @ ''/'' else out)
         in Clean_loop rooted dotdot
              (out' @ takeWhile (\<lambda>x. x \<noteq> CHR ''/'') (c # (cs @ rest)))
              (dropWhile (\<lambda>x. x \<noteq> CHR ''/'') (c # (cs @ rest))))"
    by (subst Clean_loop.simps(2)) (simp only: c dot dotdot if_False)
  show ?thesis
    using tw dw unfolding s append_Cons step Let_def add_slash_def by simp
qed

lemma join_slash_Cons:
  "ss \<noteq> [] \<Longrightarrow> join_slash (s # ss) = s @ CHR ''/'' # join_slash ss"
  by (cases ss) simp_all

lemma join_slash_snoc:
  "ss \<noteq> [] \<Longrightarrow> join_slash (ss @ [u]) = join_slash ss @ ''/'' @ u"
  by (induction ss rule: join_slash.induct) simp_all

lemma Clean_loop_join:
  assumes "segs \<noteq> []" and "\<forall>s \<in> set segs. clean_segment s" and "rooted \<longrightarrow> out \<noteq> []"
  shows "Clean_loop rooted dotdot out (join_slash segs) = add_slash rooted out @ join_slash segs"
  using assms
proof (induction segs arbitrary: out)
  case Nil
  then show ?case by simp
next
  case (Cons s ss)
  then have s: "clean_segment s" by simp
  show ?case
  proof (cases ss)
    case Nil
    then show ?thesis
      using Clean_loop_segment [OF s, of "[]" rooted dotdot out] by simp
  next
    case (Cons t ts)
    let ?out = "add_slash rooted out @ s"
    have ne: "s \<noteq> []" using s by (simp add: clean_segment_def)
    have more: "add_slash rooted ?out = ?out @ ''/''"
      using ne Cons.prems(3) by (cases s) (auto simp: add_slash_def)
    have "Clean_loop rooted dotdot out (join_slash (s # ss)) =
            Clean_loop rooted dotdot ?out (CHR ''/'' # join_slash ss)"
      using Clean_loop_segment [OF s, of "CHR ''/'' # join_slash ss" rooted dotdot out] Cons
      by simp
    also have "\<dots> = Clean_loop rooted dotdot ?out (join_slash ss)"
      by (rule Clean_loop_slash)
    also have "\<dots> = add_slash rooted ?out @ join_slash ss"
      using Cons.prems(2) Cons ne by (intro Cons.IH) auto
    finally show ?thesis
      using Cons by (simp add: more)
  qed
qed

lemma Clean_join_slash:
  assumes "segs \<noteq> []" and "\<forall>s \<in> set segs. clean_segment s"
  shows "Clean ((if rooted then ''/'' else []) @ join_slash segs) =
         (if rooted then ''/'' else []) @ join_slash segs"
proof -
  obtain s ss where segs: "segs = s # ss"
    using assms(1) by (cases segs) auto
  then have s: "s \<noteq> []" "hd s \<noteq> CHR ''/''"
    using assms(2) by (cases s; auto simp: clean_segment_def)+
  have ne: "join_slash segs \<noteq> []" and hd: "hd (join_slash segs) \<noteq> CHR ''/''"
    using s by (cases ss; simp add: segs)+
  show ?thesis
  proof (cases rooted)
    case True
    then show ?thesis
      using Clean_loop_join [OF assms, of True "''/''" 1]
      by (simp add: Clean_def add_slash_def)
  next
    case False
    then show ?thesis
      using Clean_loop_join [OF assms, of False "[]" 0] ne hd
      by (simp add: Clean_def add_slash_def)
  qed
qed

lemma Join_clean:
  assumes "segs \<noteq> []" and "\<forall>s \<in> set segs. clean_segment s" and "clean_segment u"
  shows "Join ((if rooted then ''/'' else []) @ join_slash segs) u =
         (if rooted then ''/'' else []) @ join_slash segs @ ''/'' @ u"
proof -
  have "Clean ((if rooted then ''/'' else []) @ join_slash (segs @ [u])) =
          (if rooted then ''/'' else []) @ join_slash (segs @ [u])"
    using assms by (intro Clean_join_slash) auto
  moreover have "join_slash segs \<noteq> []"
    using assms(1,2) by (cases segs rule: join_slash.cases) (auto simp: clean_segment_def)
  ultimately show ?thesis
    using assms(1) by (simp add: Join_def join_slash_snoc)
qed


lemma Register_minted:
  assumes "Register E (Some rq) resp m = (Inr vaultID, m')" and "vaultID \<noteq> []"
  shows "vaultID = Join (Request.Path rq) (UUID E (trace m @ [TimeNow (Now E (trace m))])) \<and>
         (\<exists>rest. trace m' =
            trace m @ [TimeNow (Now E (trace m)),
                       GenerateUUID (UUID E (trace m @ [TimeNow (Now E (trace m))]))] @ rest)"
  using assms
  by (auto simp: Register_def time_Now_UTC_def generateUUID_def persistEntry_def encode_def
      view_Put_def time_AfterFunc_def Let_def
      split: option.splits if_splits sum.splits prod.splits)

text \<open>
  Claim C9, as the code has it. The id \<open>Register\<close> returns is
  \<open>path.Join(request.path, uuid)\<close>, which cleans the joined path. When the request
  path is a non-empty sequence of elements separated by single slashes, after a leading
  slash or not, none of them empty, \<open>.\<close> or \<open>..\<close>, and the uuid minted is such an
  element, the id returned is the request path, a slash, and that uuid.
\<close>

theorem Register_id_under_clean_path:
  assumes "Register E (Some rq) resp m = (Inr vaultID, m')" and "vaultID \<noteq> []"
    and "Request.Path rq = (if rooted then ''/'' else []) @ join_slash segs"
    and "segs \<noteq> []" and "\<forall>s \<in> set segs. clean_segment s"
    and "clean_segment (UUID E (trace m @ [TimeNow (Now E (trace m))]))"
  shows "vaultID = Request.Path rq @ ''/'' @ UUID E (trace m @ [TimeNow (Now E (trace m))]) \<and>
         (\<exists>rest. trace m' =
            trace m @ [TimeNow (Now E (trace m)),
                       GenerateUUID (UUID E (trace m @ [TimeNow (Now E (trace m))]))] @ rest)"
  using Register_minted [OF assms(1,2)] Join_clean [OF assms(4,5,6), of rooted] assms(3)
  by simp

lemma fx_Join_unclean: "Join ''aws//creds'' ''u1'' = ''aws/creds/u1''"
  by (simp add: Join_def Clean_def Clean_loop.simps(2))

text \<open>
  Against claim C9 as stated: for the request path \<open>aws//creds\<close> the id returned is
  \<open>aws/creds/u1\<close>, of which the request path followed by a slash is no prefix.
\<close>

theorem Register_id_cleaned:
  "fst (Register (fx_env 0) (Some (fx_request\<lparr>Request.Path := ''aws//creds''\<rparr>))
          (Some fx_response) (NewExpirationManager [])) = Inr ''aws/creds/u1'' \<and>
   ''aws/creds/u1'' \<noteq> [] \<and>
   \<not> HasPrefix ''aws/creds/u1'' (''aws//creds'' @ ''/'')"
  by (simp add: Register_def run_defs fx_Join_unclean time_Add_def IsZero_def zeroTime_def
      word_sless_alt word_sle_eq fx_request_def fx_response_def NewExpirationManager_def
      Second_def emit_def HasPrefix_def)

theorem Register_id_under_clean_path_witness:
  "(let r = Register (fx_env 0) (Some fx_request) (Some fx_response) (NewExpirationManager [])
    in r = (Inr ''aws/creds/ops/u1'', snd r) \<and>
       Request.Path fx_request = (if False then ''/'' else []) @ join_slash [''aws'', ''creds'', ''ops''] \<and>
       (\<forall>s \<in> set [''aws'', ''creds'', ''ops'']. clean_segment s) \<and>
       clean_segment (UUID (fx_env 0) (trace (NewExpirationManager []) @
                       [TimeNow (Now (fx_env 0) (trace (NewExpirationManager [])))])) \<and>
       ''aws/creds/ops/u1'' = Request.Path fx_request @ ''/'' @ ''u1'')"
proof -
  let ?m = "NewExpirationManager [] :: string ExpirationManager"
  let ?r = "Register (fx_env 0) (Some fx_request) (Some fx_response) ?m"
  have h1: "?r = (Inr ''aws/creds/ops/u1'', snd ?r)"
    by (simp add: fx_Register)
  have h2: "''aws/creds/ops/u1'' \<noteq> []" by simp
  have h3: "Request.Path fx_request =
              (if False then ''/'' else []) @ join_slash [''aws'', ''creds'', ''ops'']"
    by (simp add: fx_request_def)
  have h4: "[''aws'', ''creds'', ''ops''] \<noteq> []" by simp
  have h5: "\<forall>s \<in> set [''aws'', ''creds'', ''ops'']. clean_segment s"
    by (simp add: clean_segment_def)
  have h6: "clean_segment (UUID (fx_env 0) (trace ?m @ [TimeNow (Now (fx_env 0) (trace ?m))]))"
    by (simp add: clean_segment_def)
  from Register_id_under_clean_path [OF h1 h2 h3 h4 h5 h6] h1 h3 h5 h6 show ?thesis
    by (simp add: Let_def)
qed

end
